theory Spec2Isabelle
  imports Complex_Main "HOL-Library.Char_ord" "HOL-Library.List_Lexorder"
begin

section \<open>Values, documents and errors\<close>

text \<open>
  The servers keep their records in MongoDB collections and handle them as Python
  dictionaries. A document is a finite map from field names to values; a collection is
  the list of its documents in the order the store returns them. Python's \<open>float\<close>
  amounts are idealised as reals: no claim below is about rounding. Strings are byte
  lists ordered lexicographically (a proper prefix is smaller), which is the order of
  Python's \<open>str\<close> comparison and of MongoDB's \<open>$gte\<close> on strings.
\<close>

record datetime =
  year :: nat
  month :: nat
  day :: nat
  hour :: nat
  minute :: nat
  second :: nat
  microsecond :: nat

datatype val = Str string | Num real | Null | Stamp datetime

type_synonym doc = "string \<Rightarrow> val option"

datatype py_error =
    KeyError string
  | TypeError
  | ValueError
  | OverflowError
  | HTTPException nat string

definition bind_err :: "py_error + 'a \<Rightarrow> ('a \<Rightarrow> py_error + 'b) \<Rightarrow> py_error + 'b" where
  "bind_err m f = (case m of Inl e \<Rightarrow> Inl e | Inr x \<Rightarrow> f x)"

record store =
  expenses :: "doc list"
  debts :: "doc list"
  limits :: "doc list"

section \<open>The calendar of Python's datetime\<close>

text \<open>
  \<open>datetime\<close> is the proleptic Gregorian calendar with years 1 to 9999.
  \<open>toordinal\<close> numbers the days from 0001-01-01 = 1, and \<open>weekday()\<close> is
  \<open>(toordinal() + 6) % 7\<close>, Monday = 0. Subtracting \<open>timedelta(days=k)\<close> steps
  back \<open>k\<close> calendar days and raises OverflowError below 0001-01-01.
\<close>

definition is_leap :: "nat \<Rightarrow> bool" where
  "is_leap y = (y mod 4 = 0 \<and> (y mod 100 \<noteq> 0 \<or> y mod 400 = 0))"

definition days_in_month :: "nat \<Rightarrow> nat \<Rightarrow> nat" where
  "days_in_month y m =
     (if m = 2 then (if is_leap y then 29 else 28)
      else if m = 4 \<or> m = 6 \<or> m = 9 \<or> m = 11 then 30 else 31)"

definition days_before_year :: "nat \<Rightarrow> nat" where
  "days_before_year y =
     (y - 1) * 365 + (y - 1) div 4 + (y - 1) div 400 - (y - 1) div 100"

fun days_before_month :: "nat \<Rightarrow> nat \<Rightarrow> nat" where
  "days_before_month y 0 = 0"
| "days_before_month y (Suc 0) = 0"
| "days_before_month y (Suc (Suc m)) = days_before_month y (Suc m) + days_in_month y (Suc m)"

definition toordinal :: "datetime \<Rightarrow> nat" where
  "toordinal dt = days_before_year (year dt) + days_before_month (year dt) (month dt) + day dt"

definition weekday :: "datetime \<Rightarrow> nat" where
  "weekday dt = (toordinal dt + 6) mod 7"

definition valid_datetime :: "datetime \<Rightarrow> bool" where
  "valid_datetime dt =
     (1 \<le> year dt \<and> year dt \<le> 9999 \<and> 1 \<le> month dt \<and> month dt \<le> 12 \<and>
      1 \<le> day dt \<and> day dt \<le> days_in_month (year dt) (month dt) \<and>
      hour dt < 24 \<and> minute dt < 60 \<and> second dt < 60 \<and> microsecond dt < 1000000)"

definition prev_day :: "datetime \<Rightarrow> datetime" where
  "prev_day dt =
     (if 1 < day dt then dt\<lparr>day := day dt - 1\<rparr>
      else if 1 < month dt
        then dt\<lparr>month := month dt - 1, day := days_in_month (year dt) (month dt - 1)\<rparr>
      else dt\<lparr>year := year dt - 1, month := 12, day := 31\<rparr>)"

fun sub_days :: "datetime \<Rightarrow> nat \<Rightarrow> py_error + datetime" where
  "sub_days dt 0 = Inr dt"
| "sub_days dt (Suc k) =
     (if year dt \<le> 1 \<and> month dt \<le> 1 \<and> day dt \<le> 1 then Inl OverflowError
      else sub_days (prev_day dt) k)"

text \<open>\<open>strftime("%Y-%m-%d")\<close>: four, two and two decimal digits, zero padded.\<close>

definition digit :: "nat \<Rightarrow> char" where
  "digit n = ''0123456789'' ! (n mod 10)"

definition pad2 :: "nat \<Rightarrow> string" where
  "pad2 n = [digit (n div 10), digit n]"

definition pad4 :: "nat \<Rightarrow> string" where
  "pad4 n = pad2 (n div 100) @ pad2 n"

definition strftime_ymd :: "datetime \<Rightarrow> string" where
  "strftime_ymd dt = pad4 (year dt) @ ''-'' @ pad2 (month dt) @ ''-'' @ pad2 (day dt)"

section \<open>Python and MongoDB primitives\<close>

text \<open>
  \<open>d[k]\<close> raises KeyError on a missing key, \<open>d.get(k)\<close> gives None and
  \<open>d.get(k, v)\<close> gives \<open>v\<close>. \<open>==\<close> between a value and a string never
  raises; \<open>>=\<close> raises TypeError unless both sides are strings; \<open>+\<close> and
  \<open>-\<close> on a number raise TypeError unless the other side is a number.
\<close>

definition dict_index :: "doc \<Rightarrow> string \<Rightarrow> py_error + val" where
  "dict_index d k = (case d k of None \<Rightarrow> Inl (KeyError k) | Some v \<Rightarrow> Inr v)"

definition dict_get :: "doc \<Rightarrow> string \<Rightarrow> val" where
  "dict_get d k = (case d k of None \<Rightarrow> Null | Some v \<Rightarrow> v)"

definition dict_get_default :: "doc \<Rightarrow> string \<Rightarrow> val \<Rightarrow> val" where
  "dict_get_default d k v = (case d k of None \<Rightarrow> v | Some w \<Rightarrow> w)"

definition py_ge_str :: "val \<Rightarrow> string \<Rightarrow> py_error + bool" where
  "py_ge_str v s = (case v of Str t \<Rightarrow> Inr (s \<le> t) | _ \<Rightarrow> Inl TypeError)"

definition py_num :: "val \<Rightarrow> py_error + real" where
  "py_num v = (case v of Num a \<Rightarrow> Inr a | _ \<Rightarrow> Inl TypeError)"

text \<open>
  \<open>sum(e["amount"] for e in docs if cond(e))\<close>: the generator tests the condition of
  each document in order, reads the amount of a document that passes, and \<open>sum\<close>
  adds it to the running total, which starts at 0.
\<close>

fun sum_amounts :: "(doc \<Rightarrow> py_error + bool) \<Rightarrow> doc list \<Rightarrow> real \<Rightarrow> py_error + real" where
  "sum_amounts cond [] acc = Inr acc"
| "sum_amounts cond (e # es) acc =
     bind_err (cond e) (\<lambda>b.
       if b then
         bind_err (dict_index e ''amount'') (\<lambda>v.
         bind_err (py_num v) (\<lambda>a. sum_amounts cond es (acc + a)))
       else sum_amounts cond es acc)"

text \<open>
  \<open>find(query, {"_id": 0})\<close> returns the matching documents in store order without
  their \<open>_id\<close>; \<open>to_list(n)\<close> keeps the first \<open>n\<close>; \<open>find_one\<close> returns
  the first match or None. A query \<open>{"id": s}\<close> matches a document whose \<open>id\<close>
  is the string \<open>s\<close>; \<open>{"date": {"$gte": s}}\<close> matches a document whose
  \<open>date\<close> is a string not below \<open>s\<close>, and \<open>$lte\<close> likewise.
\<close>

definition project_id :: "doc \<Rightarrow> doc" where
  "project_id d = d(''_id'' := None)"

definition find_docs :: "(doc \<Rightarrow> bool) \<Rightarrow> doc list \<Rightarrow> doc list" where
  "find_docs q coll = map project_id (filter q coll)"

definition to_list :: "nat \<Rightarrow> doc list \<Rightarrow> doc list" where
  "to_list n docs = take n docs"

definition find_one :: "(doc \<Rightarrow> bool) \<Rightarrow> doc list \<Rightarrow> doc option" where
  "find_one q coll = (case filter q coll of [] \<Rightarrow> None | d # _ \<Rightarrow> Some (project_id d))"

definition q_all :: "doc \<Rightarrow> bool" where
  "q_all d = True"

definition q_id :: "string \<Rightarrow> doc \<Rightarrow> bool" where
  "q_id s d = (d ''id'' = Some (Str s))"

definition q_date_gte :: "string \<Rightarrow> doc \<Rightarrow> bool" where
  "q_date_gte s d = (case d ''date'' of Some (Str t) \<Rightarrow> s \<le> t | _ \<Rightarrow> False)"

definition q_date_gte_lte :: "string \<Rightarrow> string \<Rightarrow> doc \<Rightarrow> bool" where
  "q_date_gte_lte lo hi d =
     (case d ''date'' of Some (Str t) \<Rightarrow> lo \<le> t \<and> t \<le> hi | _ \<Rightarrow> False)"

section \<open>get_summary\<close>

record summary =
  total_today :: real
  total_week :: real
  total_month :: real
  weekly_limit :: real
  monthly_limit :: real
  remaining_week :: real
  remaining_month :: real
  money_gave :: real
  money_owe :: real
  weekly_warning :: string
  monthly_warning :: string

text \<open>The warning block, written twice in each \<open>get_summary\<close>.\<close>

definition warning_of :: "real \<Rightarrow> real \<Rightarrow> string" where
  "warning_of spent lmt =
     (let warning = ''none'' in
      if lmt > 0 then
        (let percent = (spent / lmt) * 100 in
         if percent \<ge> 100 then ''red''
         else if percent \<ge> 80 then ''yellow''
         else warning)
      else warning)"

text \<open>\<open>get_summary\<close> of \<open>src/server.py\<close>; \<open>now\<close> is \<open>datetime.now(timezone.utc)\<close>.\<close>

definition get_summary :: "store \<Rightarrow> datetime \<Rightarrow> py_error + summary" where
  "get_summary db now =
     (let today_date = strftime_ymd now in
      bind_err (sub_days now (weekday now)) (\<lambda>week_start.
      let week_start_date = strftime_ymd week_start;
          month_start = now\<lparr>day := 1\<rparr>;
          month_start_date = strftime_ymd month_start;
          all_expenses = to_list 10000 (find_docs q_all (expenses db)) in
      bind_err (sum_amounts (\<lambda>e. Inr (dict_get e ''date'' = Str today_date)) all_expenses 0)
        (\<lambda>total_today.
      bind_err (sum_amounts
          (\<lambda>e. py_ge_str (dict_get_default e ''date'' (Str [])) week_start_date) all_expenses 0)
        (\<lambda>total_week.
      bind_err (sum_amounts
          (\<lambda>e. py_ge_str (dict_get_default e ''date'' (Str [])) month_start_date) all_expenses 0)
        (\<lambda>total_month.
      let limit = find_one (q_id ''limit_settings'') (limits db);
          wl = (case limit of None \<Rightarrow> Num 0
                | Some l \<Rightarrow> dict_get_default l ''weekly_limit'' (Num 0));
          ml = (case limit of None \<Rightarrow> Num 0
                | Some l \<Rightarrow> dict_get_default l ''monthly_limit'' (Num 0)) in
      bind_err (py_num wl) (\<lambda>weekly_limit.
      let remaining_week = weekly_limit - total_week in
      bind_err (py_num ml) (\<lambda>monthly_limit.
      let remaining_month = monthly_limit - total_month;
          weekly_warning = warning_of total_week weekly_limit;
          monthly_warning = warning_of total_month monthly_limit;
          all_debts = to_list 10000 (find_docs q_all (debts db)) in
      bind_err (sum_amounts
          (\<lambda>d. Inr (dict_get d ''debt_type'' = Str ''gave''
                     \<and> dict_get d ''status'' = Str ''pending''))
          all_debts 0)
        (\<lambda>money_gave.
      bind_err (sum_amounts
          (\<lambda>d. Inr (dict_get d ''debt_type'' = Str ''owe''
                     \<and> dict_get d ''status'' = Str ''pending''))
          all_debts 0)
        (\<lambda>money_owe.
      Inr \<lparr>total_today = total_today, total_week = total_week, total_month = total_month,
           weekly_limit = weekly_limit, monthly_limit = monthly_limit,
           remaining_week = remaining_week, remaining_month = remaining_month,
           money_gave = money_gave, money_owe = money_owe,
           weekly_warning = weekly_warning, monthly_warning = monthly_warning\<rparr>)))))))))"

text \<open>
  \<open>get_summary\<close> of \<open>src/backend/server.py\<close>: the same computation with
  \<open>e['date']\<close>, \<open>limit['weekly_limit']\<close>, \<open>d['debt_type']\<close> and
  \<open>d['status']\<close> read by subscript, which raises KeyError on a missing field;
  \<open>and\<close> does not read \<open>status\<close> when the first test fails.
\<close>

definition debt_cond_backend :: "string \<Rightarrow> doc \<Rightarrow> py_error + bool" where
  "debt_cond_backend t d =
     bind_err (dict_index d ''debt_type'') (\<lambda>dt.
       if dt = Str t
       then bind_err (dict_index d ''status'') (\<lambda>st. Inr (st = Str ''pending''))
       else Inr False)"

definition get_summary_backend :: "store \<Rightarrow> datetime \<Rightarrow> py_error + summary" where
  "get_summary_backend db now =
     (let today_date = strftime_ymd now in
      bind_err (sub_days now (weekday now)) (\<lambda>week_start.
      let week_start_date = strftime_ymd week_start;
          month_start = now\<lparr>day := 1\<rparr>;
          month_start_date = strftime_ymd month_start;
          all_expenses = to_list 10000 (find_docs q_all (expenses db)) in
      bind_err (sum_amounts
          (\<lambda>e. bind_err (dict_index e ''date'') (\<lambda>v. Inr (v = Str today_date))) all_expenses 0)
        (\<lambda>total_today.
      bind_err (sum_amounts
          (\<lambda>e. bind_err (dict_index e ''date'') (\<lambda>v. py_ge_str v week_start_date)) all_expenses 0)
        (\<lambda>total_week.
      bind_err (sum_amounts
          (\<lambda>e. bind_err (dict_index e ''date'') (\<lambda>v. py_ge_str v month_start_date)) all_expenses 0)
        (\<lambda>total_month.
      let limit = find_one (q_id ''limit_settings'') (limits db) in
      bind_err (case limit of None \<Rightarrow> Inr (Num 0)
                | Some l \<Rightarrow> dict_index l ''weekly_limit'') (\<lambda>wl.
      bind_err (case limit of None \<Rightarrow> Inr (Num 0)
                | Some l \<Rightarrow> dict_index l ''monthly_limit'') (\<lambda>ml.
      bind_err (py_num wl) (\<lambda>weekly_limit.
      let remaining_week = weekly_limit - total_week in
      bind_err (py_num ml) (\<lambda>monthly_limit.
      let remaining_month = monthly_limit - total_month;
          weekly_warning = warning_of total_week weekly_limit;
          monthly_warning = warning_of total_month monthly_limit;
          all_debts = to_list 10000 (find_docs q_all (debts db)) in
      bind_err (sum_amounts (debt_cond_backend ''gave'') all_debts 0) (\<lambda>money_gave.
      bind_err (sum_amounts (debt_cond_backend ''owe'') all_debts 0) (\<lambda>money_owe.
      Inr \<lparr>total_today = total_today, total_week = total_week, total_month = total_month,
           weekly_limit = weekly_limit, monthly_limit = monthly_limit,
           remaining_week = remaining_week, remaining_month = remaining_month,
           money_gave = money_gave, money_owe = money_owe,
           weekly_warning = weekly_warning, monthly_warning = monthly_warning\<rparr>)))))))))))"

section \<open>get_expenses\<close>

text \<open>
  \<open>list.sort(key=..., reverse=True)\<close> computes every key first, then orders the
  documents by descending key, keeping the original order of equal keys, and raises
  TypeError when it compares two keys that \<open><\<close> does not relate (strings with
  strings, numbers with numbers and datetimes with datetimes are related; None is not
  related to anything). The model inserts from the right, which makes the same
  comparisons succeed or fail and gives the same list.
\<close>

definition val_lt :: "val \<Rightarrow> val \<Rightarrow> py_error + bool" where
  "val_lt a b =
     (case (a, b) of
        (Str s, Str t) \<Rightarrow> Inr (s < t)
      | (Num x, Num y) \<Rightarrow> Inr (x < y)
      | (Stamp p, Stamp q) \<Rightarrow>
          Inr ([year p, month p, day p, hour p, minute p, second p, microsecond p]
             < [year q, month q, day q, hour q, minute q, second q, microsecond q])
      | _ \<Rightarrow> Inl TypeError)"

fun insert_desc :: "val \<times> doc \<Rightarrow> (val \<times> doc) list \<Rightarrow> py_error + (val \<times> doc) list" where
  "insert_desc x [] = Inr [x]"
| "insert_desc x (y # ys) =
     bind_err (val_lt (fst x) (fst y)) (\<lambda>b.
       if b then bind_err (insert_desc x ys) (\<lambda>r. Inr (y # r))
       else Inr (x # y # ys))"

fun sort_desc :: "(val \<times> doc) list \<Rightarrow> py_error + (val \<times> doc) list" where
  "sort_desc [] = Inr []"
| "sort_desc (x # xs) = bind_err (sort_desc xs) (insert_desc x)"

fun map_err :: "('a \<Rightarrow> py_error + 'b) \<Rightarrow> 'a list \<Rightarrow> py_error + 'b list" where
  "map_err f [] = Inr []"
| "map_err f (x # xs) = bind_err (f x) (\<lambda>y. bind_err (map_err f xs) (\<lambda>ys. Inr (y # ys)))"

definition sort_by_key_desc :: "(doc \<Rightarrow> py_error + val) \<Rightarrow> doc list \<Rightarrow> py_error + doc list" where
  "sort_by_key_desc key docs =
     bind_err (map_err (\<lambda>d. bind_err (key d) (\<lambda>k. Inr (k, d))) docs) (\<lambda>keyed.
     bind_err (sort_desc keyed) (\<lambda>sorted. Inr (map snd sorted)))"

text \<open>
  \<open>datetime.fromisoformat\<close> is a parameter \<open>fromiso\<close>: it returns the datetime a
  string denotes or raises ValueError.
\<close>

definition fix_timestamp :: "(string \<Rightarrow> py_error + datetime) \<Rightarrow> doc \<Rightarrow> py_error + doc" where
  "fix_timestamp fromiso d =
     (case dict_get d ''timestamp'' of
        Str s \<Rightarrow> bind_err (fromiso s) (\<lambda>t. Inr (d(''timestamp'' \<mapsto> Stamp t)))
      | _ \<Rightarrow> Inr d)"

definition fix_timestamp_backend :: "(string \<Rightarrow> py_error + datetime) \<Rightarrow> doc \<Rightarrow> py_error + doc" where
  "fix_timestamp_backend fromiso d =
     bind_err (dict_index d ''timestamp'') (\<lambda>v.
       case v of
         Str s \<Rightarrow> bind_err (fromiso s) (\<lambda>t. Inr (d(''timestamp'' \<mapsto> Stamp t)))
       | _ \<Rightarrow> Inr d)"

definition midnight :: "datetime \<Rightarrow> datetime" where
  "midnight dt = dt\<lparr>hour := 0, minute := 0, second := 0, microsecond := 0\<rparr>"

text \<open>\<open>get_expenses\<close> of \<open>src/server.py\<close>. \<open>if filter:\<close> fails on None and on the empty string.\<close>

definition get_expenses ::
  "(string \<Rightarrow> py_error + datetime) \<Rightarrow> store \<Rightarrow> datetime \<Rightarrow> string option \<Rightarrow> py_error + doc list" where
  "get_expenses fromiso db now flt =
     bind_err
       (if flt \<noteq> None \<and> flt \<noteq> Some [] then
          (if flt = Some ''day'' then
             (let start_date = midnight now; start_str = strftime_ymd start_date
              in Inr (q_date_gte_lte start_str start_str))
           else if flt = Some ''week'' then
             bind_err (sub_days now (weekday now)) (\<lambda>start_date.
               let start_str = strftime_ymd start_date in Inr (q_date_gte start_str))
           else if flt = Some ''month'' then
             (let start_date = now\<lparr>day := 1\<rparr>; start_str = strftime_ymd start_date
              in Inr (q_date_gte start_str))
           else Inr q_all)
        else Inr q_all) (\<lambda>query.
     let docs = to_list 10000 (find_docs query (expenses db)) in
     bind_err (map_err (fix_timestamp fromiso) docs) (\<lambda>docs.
     sort_by_key_desc (\<lambda>x. Inr (dict_get_default x ''date'' (Str []))) docs))"

text \<open>
  \<open>get_expenses\<close> of \<open>src/backend/server.py\<close>: every filter, \<open>day\<close> included,
  becomes the one query \<open>{"date": {"$gte": start}}\<close>.
\<close>

definition get_expenses_backend ::
  "(string \<Rightarrow> py_error + datetime) \<Rightarrow> store \<Rightarrow> datetime \<Rightarrow> string option \<Rightarrow> py_error + doc list" where
  "get_expenses_backend fromiso db now flt =
     bind_err
       (if flt \<noteq> None \<and> flt \<noteq> Some [] then
          bind_err
            (if flt = Some ''day'' then Inr (Some (midnight now))
             else if flt = Some ''week'' then
               bind_err (sub_days now (weekday now)) (\<lambda>start_date. Inr (Some (midnight start_date)))
             else if flt = Some ''month'' then Inr (Some (midnight (now\<lparr>day := 1\<rparr>)))
             else Inr None) (\<lambda>start_date.
          case start_date of
            Some sd \<Rightarrow> Inr (q_date_gte (strftime_ymd sd))
          | None \<Rightarrow> Inr q_all)
        else Inr q_all) (\<lambda>query.
     let docs = to_list 10000 (find_docs query (expenses db)) in
     bind_err (map_err (fix_timestamp_backend fromiso) docs) (\<lambda>docs.
     sort_by_key_desc (\<lambda>x. dict_index x ''date'') docs))"

section \<open>update_expense and update_debt\<close>

text \<open>
  \<open>find_one_and_update(query, {"$set": fields}, return_document=AFTER)\<close> rewrites the
  first document that matches, leaves every other document and the order alone, and
  returns the rewritten document, or None when nothing matches. \<open>$set\<close> overwrites
  exactly the listed fields.
\<close>

definition set_fields :: "(string \<times> val) list \<Rightarrow> doc \<Rightarrow> doc" where
  "set_fields kvs d = d ++ map_of kvs"

fun update_first :: "(doc \<Rightarrow> bool) \<Rightarrow> (doc \<Rightarrow> doc) \<Rightarrow> doc list \<Rightarrow> doc list" where
  "update_first q f [] = []"
| "update_first q f (d # ds) = (if q d then f d # ds else d # update_first q f ds)"

definition find_one_and_update ::
  "(doc \<Rightarrow> bool) \<Rightarrow> (string \<times> val) list \<Rightarrow> doc list \<Rightarrow> doc option \<times> doc list" where
  "find_one_and_update q kvs coll =
     (case filter q coll of
        [] \<Rightarrow> (None, coll)
      | d # _ \<Rightarrow> (Some (set_fields kvs d), update_first q (set_fields kvs) coll))"

record ExpenseCreate =
  ec_title :: string
  ec_amount :: real
  ec_date :: string
  ec_category :: string

definition model_dump :: "ExpenseCreate \<Rightarrow> (string \<times> val) list" where
  "model_dump inp =
     [(''title'', Str (ec_title inp)), (''amount'', Num (ec_amount inp)),
      (''date'', Str (ec_date inp)), (''category'', Str (ec_category inp))]"

record DebtUpdate =
  du_status :: string

text \<open>
  Both handlers of \<open>src/server.py\<close> return the response and the store after the call;
  the store is already rewritten when the timestamp conversion raises.
\<close>

definition update_expense ::
  "(string \<Rightarrow> py_error + datetime) \<Rightarrow> store \<Rightarrow> string \<Rightarrow> ExpenseCreate \<Rightarrow> (py_error + doc) \<times> store" where
  "update_expense fromiso db expense_id inp =
     (let expense_dict = model_dump inp;
          (result, coll) = find_one_and_update (q_id expense_id) expense_dict (expenses db);
          db' = db\<lparr>expenses := coll\<rparr>
      in case result of
           None \<Rightarrow> (Inl (HTTPException 404 ''Expense not found''), db')
         | Some r \<Rightarrow> (fix_timestamp fromiso (r(''_id'' := None)), db'))"

definition update_debt ::
  "(string \<Rightarrow> py_error + datetime) \<Rightarrow> store \<Rightarrow> string \<Rightarrow> DebtUpdate \<Rightarrow> (py_error + doc) \<times> store" where
  "update_debt fromiso db debt_id inp =
     (let (result, coll) =
            find_one_and_update (q_id debt_id) [(''status'', Str (du_status inp))] (debts db);
          db' = db\<lparr>debts := coll\<rparr>
      in case result of
           None \<Rightarrow> (Inl (HTTPException 404 ''Debt not found''), db')
         | Some r \<Rightarrow> (fix_timestamp fromiso (r(''_id'' := None)), db'))"

section \<open>Notions of the specification\<close>

text \<open>
  The warning classifier as the specification words it: limit \<open>\<le> 0\<close> gives \<open>none\<close>;
  otherwise, with \<open>percent = (spent / limit) * 100\<close>, \<open>percent \<ge> 100\<close> gives
  \<open>red\<close>, \<open>80 \<le> percent < 100\<close> gives \<open>yellow\<close> and \<open>percent < 80\<close> gives
  \<open>none\<close>.
\<close>

definition classify :: "real \<Rightarrow> real \<Rightarrow> string" where
  "classify spent lmt =
     (if lmt \<le> 0 then ''none''
      else if (spent / lmt) * 100 \<ge> 100 then ''red''
      else if 80 \<le> (spent / lmt) * 100 \<and> (spent / lmt) * 100 < 100 then ''yellow''
      else ''none'')"

text \<open>
  "The sum of amount over the documents that satisfy \<open>P\<close>", with the amount of a
  document read from its \<open>amount\<close> field.
\<close>

definition amount_of :: "doc \<Rightarrow> real" where
  "amount_of d = (case d ''amount'' of Some (Num a) \<Rightarrow> a | _ \<Rightarrow> 0)"

definition sum_where :: "(doc \<Rightarrow> bool) \<Rightarrow> doc list \<Rightarrow> real" where
  "sum_where P ds = sum_list (map amount_of (filter P ds))"

text \<open>"The date string of the document satisfies \<open>P\<close>"; a document with no date string does not.\<close>

definition date_matches :: "(string \<Rightarrow> bool) \<Rightarrow> doc \<Rightarrow> bool" where
  "date_matches P d = (case d ''date'' of Some (Str s) \<Rightarrow> P s | _ \<Rightarrow> False)"

text \<open>"A debt with \<open>debt_type == t\<close> and \<open>status == 'pending'\<close>".\<close>

definition pending_of :: "string \<Rightarrow> doc \<Rightarrow> bool" where
  "pending_of t d = (d ''debt_type'' = Some (Str t) \<and> d ''status'' = Some (Str ''pending''))"

text \<open>
  Documents as the API writes them: \<open>create_expense\<close>, \<open>create_debt\<close> and
  \<open>create_or_update_limit\<close> store validated models, so every expense has a numeric
  amount and a date string, every debt a numeric amount and string \<open>debt_type\<close> and
  \<open>status\<close>, and the limit settings two numeric limits.
\<close>

definition is_num :: "val option \<Rightarrow> bool" where
  "is_num v = (case v of Some (Num a) \<Rightarrow> True | _ \<Rightarrow> False)"

definition is_str :: "val option \<Rightarrow> bool" where
  "is_str v = (case v of Some (Str s) \<Rightarrow> True | _ \<Rightarrow> False)"

definition wf_expense :: "doc \<Rightarrow> bool" where
  "wf_expense d = (is_num (d ''amount'') \<and> is_str (d ''date''))"

definition wf_debt :: "doc \<Rightarrow> bool" where
  "wf_debt d = (is_num (d ''amount'') \<and> is_str (d ''debt_type'') \<and> is_str (d ''status''))"

definition wf_limits :: "doc list \<Rightarrow> bool" where
  "wf_limits coll =
     (case find_one (q_id ''limit_settings'') coll of
        None \<Rightarrow> True
      | Some l \<Rightarrow> is_num (l ''weekly_limit'') \<and> is_num (l ''monthly_limit''))"

definition wf_store :: "store \<Rightarrow> bool" where
  "wf_store db =
     (list_all wf_expense (expenses db) \<and> list_all wf_debt (debts db) \<and> wf_limits (limits db))"

text \<open>The limits a store configures: the stored numbers, or 0 and 0 without a record.\<close>

definition limit_of :: "string \<Rightarrow> doc list \<Rightarrow> real" where
  "limit_of k coll =
     (case find_one (q_id ''limit_settings'') coll of
        None \<Rightarrow> 0
      | Some l \<Rightarrow> (case l k of Some (Num a) \<Rightarrow> a | _ \<Rightarrow> 0))"

text \<open>Calendar order on year, month and day.\<close>

definition date_le :: "datetime \<Rightarrow> datetime \<Rightarrow> bool" where
  "date_le a b =
     (year a < year b \<or> (year a = year b \<and>
        (month a < month b \<or> (month a = month b \<and> day a \<le> day b))))"

text \<open>"The date string falls within the current calendar month": it is a day of the month of \<open>now\<close>.\<close>

definition in_current_month :: "datetime \<Rightarrow> string \<Rightarrow> bool" where
  "in_current_month now s =
     (\<exists>d\<in>{1..days_in_month (year now) (month now)}. s = strftime_ymd (now\<lparr>day := d\<rparr>))"

text \<open>"Flipping the status to paid".\<close>

definition mark_paid :: "doc \<Rightarrow> doc" where
  "mark_paid d = d(''status'' \<mapsto> Str ''paid'')"

text \<open>
  The summary in closed form, over the documents \<open>get_summary\<close> reads: the first
  10000 expenses and the first 10000 debts in store order.
\<close>

definition summary_of :: "store \<Rightarrow> string \<Rightarrow> string \<Rightarrow> string \<Rightarrow> summary" where
  "summary_of db today_date week_start_date month_start_date =
     (let es = take 10000 (expenses db);
          ds = take 10000 (debts db);
          tt = sum_where (date_matches (\<lambda>s. s = today_date)) es;
          tw = sum_where (date_matches (\<lambda>s. week_start_date \<le> s)) es;
          tm = sum_where (date_matches (\<lambda>s. month_start_date \<le> s)) es;
          wl = limit_of ''weekly_limit'' (limits db);
          ml = limit_of ''monthly_limit'' (limits db)
      in \<lparr>total_today = tt, total_week = tw, total_month = tm,
           weekly_limit = wl, monthly_limit = ml,
           remaining_week = wl - tw, remaining_month = ml - tm,
           money_gave = sum_where (pending_of ''gave'') ds,
           money_owe = sum_where (pending_of ''owe'') ds,
           weekly_warning = warning_of tw wl, monthly_warning = warning_of tm ml\<rparr>)"

text \<open>
  What \<open>get_summary\<close> of \<open>src/server.py\<close> tolerates: an expense with a numeric
  amount whose date is missing or is any string, and a debt with a numeric amount.
\<close>

definition lenient_expense :: "doc \<Rightarrow> bool" where
  "lenient_expense d = (is_num (d ''amount'') \<and> (d ''date'' = None \<or> is_str (d ''date'')))"

definition lenient_store :: "store \<Rightarrow> bool" where
  "lenient_store db =
     (list_all lenient_expense (expenses db) \<and> list_all (\<lambda>d. is_num (d ''amount'')) (debts db)
      \<and> wf_limits (limits db))"

definition has_date :: "doc \<Rightarrow> bool" where
  "has_date d = (d ''date'' \<noteq> None)"

section \<open>A concrete store\<close>

text \<open>
  Wednesday 2024-05-15, 10:30 UTC; the week starts on Monday 2024-05-13. The store holds
  the three expenses and two debts of the test script, one expense seven days old.
\<close>

definition now_ex :: datetime where
  "now_ex = \<lparr>year = 2024, month = 5, day = 15, hour = 10, minute = 30, second = 0, microsecond = 0\<rparr>"

definition expense_doc :: "string \<Rightarrow> string \<Rightarrow> real \<Rightarrow> string \<Rightarrow> string \<Rightarrow> doc" where
  "expense_doc i title amount dt category =
     map_of [(''id'', Str i), (''title'', Str title), (''amount'', Num amount),
             (''date'', Str dt), (''category'', Str category), (''timestamp'', Stamp now_ex)]"

definition debt_doc :: "string \<Rightarrow> string \<Rightarrow> real \<Rightarrow> string \<Rightarrow> string \<Rightarrow> doc" where
  "debt_doc i name amount status debt_type =
     map_of [(''id'', Str i), (''name'', Str name), (''amount'', Num amount),
             (''reason'', Str ''Lunch money''), (''date'', Str ''2024-05-15''),
             (''status'', Str status), (''debt_type'', Str debt_type),
             (''timestamp'', Stamp now_ex)]"

definition limit_doc :: "real \<Rightarrow> real \<Rightarrow> doc" where
  "limit_doc w m =
     map_of [(''id'', Str ''limit_settings''), (''weekly_limit'', Num w), (''monthly_limit'', Num m)]"

definition expenses_ex :: "doc list" where
  "expenses_ex =
     [expense_doc ''e1'' ''Grocery Shopping'' 50 ''2024-05-15'' ''Food'',
      expense_doc ''e2'' ''Uber Ride'' (31 / 2) ''2024-05-15'' ''Travel'',
      expense_doc ''e3'' ''Netflix Subscription'' (1299 / 100) ''2024-05-08'' ''Entertainment'']"

definition debts_ex :: "doc list" where
  "debts_ex =
     [debt_doc ''d1'' ''John Doe'' 100 ''pending'' ''gave'',
      debt_doc ''d2'' ''Jane Smith'' 50 ''pending'' ''owe'']"

definition store_ex :: store where
  "store_ex = \<lparr>expenses = expenses_ex, debts = debts_ex, limits = [limit_doc 60 2000]\<rparr>"

definition summary_ex :: summary where
  "summary_ex =
     \<lparr>total_today = 131 / 2, total_week = 131 / 2, total_month = 7849 / 100,
      weekly_limit = 60, monthly_limit = 2000,
      remaining_week = - (11 / 2), remaining_month = 2000 - 7849 / 100,
      money_gave = 100, money_owe = 50,
      weekly_warning = ''red'', monthly_warning = ''none''\<rparr>"

text \<open>The same store with no limit settings saved.\<close>

definition store_nolimit_ex :: store where
  "store_nolimit_ex = \<lparr>expenses = expenses_ex, debts = debts_ex, limits = []\<rparr>"

definition summary_nolimit_ex :: summary where
  "summary_nolimit_ex =
     \<lparr>total_today = 131 / 2, total_week = 131 / 2, total_month = 7849 / 100,
      weekly_limit = 0, monthly_limit = 0,
      remaining_week = - (131 / 2), remaining_month = - (7849 / 100),
      money_gave = 100, money_owe = 50,
      weekly_warning = ''none'', monthly_warning = ''none''\<rparr>"

text \<open>
  A store of 10001 expenses and 10001 debts: 10000 expenses of January 2023 followed by
  one expense of today, and 10000 paid debts followed by one pending debt.
\<close>

definition old_expense :: "nat \<Rightarrow> doc" where
  "old_expense i = expense_doc (''e'' @ pad4 i) ''Coffee'' 1 ''2023-01-01'' ''Food''"

definition old_debt :: "nat \<Rightarrow> doc" where
  "old_debt i = debt_doc (''d'' @ pad4 i) ''John Doe'' 1 ''paid'' ''gave''"

definition old_expenses :: "doc list" where
  "old_expenses = map old_expense [0..<10000]"

definition old_debts :: "doc list" where
  "old_debts = map old_debt [0..<10000]"

definition store_big_ex :: store where
  "store_big_ex =
     \<lparr>expenses = old_expenses @ [expense_doc ''e10000'' ''Grocery Shopping'' 50 ''2024-05-15'' ''Food''],
      debts = old_debts @ [debt_doc ''d10000'' ''Jane Smith'' 100 ''pending'' ''gave''],
      limits = []\<rparr>"

definition summary_big_ex :: summary where
  "summary_big_ex =
     \<lparr>total_today = 0, total_week = 0, total_month = 0,
      weekly_limit = 0, monthly_limit = 0,
      remaining_week = 0, remaining_month = 0,
      money_gave = 0, money_owe = 0,
      weekly_warning = ''none'', monthly_warning = ''none''\<rparr>"

text \<open>A store with one expense of today and one dated tomorrow.\<close>

definition today_expense :: doc where
  "today_expense = expense_doc ''e1'' ''Grocery Shopping'' 50 ''2024-05-15'' ''Food''"

definition tomorrow_expense :: doc where
  "tomorrow_expense = expense_doc ''e4'' ''Concert Ticket'' 80 ''2024-05-16'' ''Entertainment''"

definition store_day_ex :: store where
  "store_day_ex = \<lparr>expenses = [today_expense, tomorrow_expense], debts = [], limits = []\<rparr>"

text \<open>The fields \<open>update_expense\<close> sets, and a document with these fields erased.\<close>

definition erase_fields :: "string list \<Rightarrow> doc \<Rightarrow> doc" where
  "erase_fields ks d = (\<lambda>k. if k \<in> set ks then None else d k)"

definition expense_fields :: "string list" where
  "expense_fields = [''title'', ''amount'', ''date'', ''category'']"

text \<open>An update of the second expense of the concrete store, and of its first debt.\<close>

definition expense_update_ex :: ExpenseCreate where
  "expense_update_ex =
     \<lparr>ec_title = ''Taxi'', ec_amount = 20, ec_date = ''2024-05-14'', ec_category = ''Travel''\<rparr>"

definition debt_update_ex :: DebtUpdate where
  "debt_update_ex = \<lparr>du_status = ''paid''\<rparr>"

text \<open>A reading of ISO timestamps that knows the one timestamp of the concrete store.\<close>

definition fromiso_ex :: "string \<Rightarrow> py_error + datetime" where
  "fromiso_ex s = (if s = ''2024-05-15T10:30:00+00:00'' then Inr now_ex else Inl ValueError)"

text \<open>
  A store whose first expense has no date field and whose second has the date string
  \<open>abc\<close>.
\<close>

definition undated_expense :: doc where
  "undated_expense = (expense_doc ''e6'' ''Tip'' 20 [] ''Food'')(''date'' := None)"

definition malformed_expense :: doc where
  "malformed_expense = expense_doc ''e5'' ''Parking'' 10 ''abc'' ''Travel''"

definition store_malformed_ex :: store where
  "store_malformed_ex =
     \<lparr>expenses = [undated_expense, malformed_expense], debts = debts_ex, limits = []\<rparr>"

definition summary_malformed_ex :: summary where
  "summary_malformed_ex =
     \<lparr>total_today = 0, total_week = 10, total_month = 10,
      weekly_limit = 0, monthly_limit = 0,
      remaining_week = - 10, remaining_month = - 10,
      money_gave = 100, money_owe = 50,
      weekly_warning = ''none'', monthly_warning = ''none''\<rparr>"

text \<open>A store as the API writes it, whose one expense has the date string \<open>abc\<close>.\<close>

definition store_abc_ex :: store where
  "store_abc_ex = \<lparr>expenses = [malformed_expense], debts = debts_ex, limits = []\<rparr>"

section \<open>Facts about the calendar\<close>

lemma days_in_month_bounds: "28 \<le> days_in_month y m" "days_in_month y m \<le> 31"
  by (simp_all add: days_in_month_def)

lemma mod_100_4: "(n::nat) mod 100 = 0 \<Longrightarrow> n mod 4 = 0"
proof -
  assume "n mod 100 = 0"
  then have "100 dvd n" by (simp add: mod_eq_0_iff_dvd)
  moreover have "(4::nat) dvd 100" by simp
  ultimately have "4 dvd n" by (rule dvd_trans[rotated])
  then show ?thesis by (simp add: mod_eq_0_iff_dvd)
qed

lemma mod_400_100: "(n::nat) mod 400 = 0 \<Longrightarrow> n mod 100 = 0"
proof -
  assume "n mod 400 = 0"
  then have "400 dvd n" by (simp add: mod_eq_0_iff_dvd)
  moreover have "(100::nat) dvd 400" by simp
  ultimately have "100 dvd n" by (rule dvd_trans[rotated])
  then show ?thesis by (simp add: mod_eq_0_iff_dvd)
qed

lemma days_before_year_Suc:
  "days_before_year (Suc (Suc z)) = days_before_year (Suc z) + (if is_leap (Suc z) then 366 else 365)"
proof -
  define a b c where "a = z div 4" and "b = z div 100" and "c = z div 400"
  have le: "b \<le> a" unfolding a_def b_def by (rule div_le_mono2) simp_all
  have d4: "Suc z div 4 = a + (if Suc z mod 4 = 0 then 1 else 0)"
    by (simp add: div_Suc a_def)
  have d100: "Suc z div 100 = b + (if Suc z mod 100 = 0 then 1 else 0)"
    by (simp add: div_Suc b_def)
  have d400: "Suc z div 400 = c + (if Suc z mod 400 = 0 then 1 else 0)"
    by (simp add: div_Suc c_def)
  have old: "days_before_year (Suc z) = z * 365 + a + c - b"
    by (simp add: days_before_year_def a_def b_def c_def)
  have new: "days_before_year (Suc (Suc z)) =
      Suc z * 365 + (a + (if Suc z mod 4 = 0 then 1 else 0))
        + (c + (if Suc z mod 400 = 0 then 1 else 0)) - (b + (if Suc z mod 100 = 0 then 1 else 0))"
    by (simp only: days_before_year_def diff_Suc_1 d4 d100 d400)
  show ?thesis
    using le mod_100_4[of "Suc z"] mod_400_100[of "Suc z"]
    unfolding old new is_leap_def
    by (cases "Suc z mod 4 = 0"; cases "Suc z mod 100 = 0"; cases "Suc z mod 400 = 0") simp_all
qed


lemma days_before_month_12: "days_before_month y 12 + 31 = (if is_leap y then 366 else 365)"
  by (simp add: eval_nat_numeral days_in_month_def)

lemma days_before_month_step:
  "1 < m \<Longrightarrow> days_before_month y (m - 1) + days_in_month y (m - 1) = days_before_month y m"
proof (cases m)
  case 0
  then show "1 < m \<Longrightarrow> ?thesis" by simp
next
  case (Suc k)
  then show "1 < m \<Longrightarrow> ?thesis" by (cases k) simp_all
qed

lemma toordinal_prev_day:
  assumes "valid_datetime dt" "\<not> (year dt \<le> 1 \<and> month dt \<le> 1 \<and> day dt \<le> 1)"
  shows "toordinal (prev_day dt) + 1 = toordinal dt"
proof -
  consider (d) "1 < day dt" | (m) "day dt = 1" "1 < month dt"
    | (y) "day dt = 1" "month dt = 1" "1 < year dt"
    using assms unfolding valid_datetime_def by force
  then show ?thesis
  proof cases
    case d
    then show ?thesis by (simp add: prev_day_def toordinal_def)
  next
    case m
    then show ?thesis
      using days_before_month_step[of "month dt" "year dt"]
      by (simp add: prev_day_def toordinal_def)
  next
    case y
    then obtain z where z: "year dt = Suc (Suc z)" by (cases "year dt"; cases "year dt - 1") auto
    show ?thesis
      using y z days_before_year_Suc[of z] days_before_month_12[of "Suc z"]
      by (simp add: prev_day_def toordinal_def)
  qed
qed

lemma valid_prev_day:
  assumes "valid_datetime dt" "\<not> (year dt \<le> 1 \<and> month dt \<le> 1 \<and> day dt \<le> 1)"
  shows "valid_datetime (prev_day dt)"
proof -
  consider (d) "1 < day dt" | (m) "day dt = 1" "1 < month dt"
    | (y) "day dt = 1" "month dt = 1" "1 < year dt"
    using assms unfolding valid_datetime_def by force
  then show ?thesis
  proof cases
    case d
    then show ?thesis using assms(1) by (auto simp: prev_day_def valid_datetime_def)
  next
    case m
    then show ?thesis
      using assms(1) days_in_month_bounds[of "year dt" "month dt - 1"]
      by (auto simp: prev_day_def valid_datetime_def)
  next
    case y
    then show ?thesis
      using assms(1) by (auto simp: prev_day_def valid_datetime_def days_in_month_def)
  qed
qed


lemma toordinal_pos: "valid_datetime dt \<Longrightarrow> 1 \<le> toordinal dt"
  by (simp add: valid_datetime_def toordinal_def)

lemma toordinal_first:
  "valid_datetime dt \<Longrightarrow> year dt \<le> 1 \<and> month dt \<le> 1 \<and> day dt \<le> 1 \<Longrightarrow> toordinal dt = 1"
  by (auto simp: valid_datetime_def toordinal_def days_before_year_def le_Suc_eq)

lemma sub_days_ok:
  "valid_datetime dt \<Longrightarrow> k < toordinal dt \<Longrightarrow>
   \<exists>r. sub_days dt k = Inr r \<and> valid_datetime r \<and> toordinal r + k = toordinal dt"
proof (induction k arbitrary: dt)
  case 0
  then show ?case by simp
next
  case (Suc k)
  have nf: "\<not> (year dt \<le> 1 \<and> month dt \<le> 1 \<and> day dt \<le> 1)"
    using Suc.prems toordinal_first[of dt] by auto
  have v: "valid_datetime (prev_day dt)" using Suc.prems(1) nf by (rule valid_prev_day)
  have t: "toordinal (prev_day dt) + 1 = toordinal dt" using Suc.prems(1) nf by (rule toordinal_prev_day)
  have "k < toordinal (prev_day dt)" using Suc.prems(2) t by simp
  from Suc.IH[OF v this] obtain r where
    "sub_days (prev_day dt) k = Inr r" "valid_datetime r" "toordinal r + k = toordinal (prev_day dt)"
    by blast
  then show ?case using nf t by simp
qed

lemma weekday_less: "valid_datetime dt \<Longrightarrow> weekday dt < toordinal dt"
proof -
  assume "valid_datetime dt"
  then have "1 \<le> toordinal dt" by (rule toordinal_pos)
  then show ?thesis unfolding weekday_def by presburger
qed

lemma week_start_ok:
  assumes "valid_datetime now"
  shows "\<exists>ws. sub_days now (weekday now) = Inr ws \<and> valid_datetime ws \<and> weekday ws = 0
           \<and> toordinal ws + weekday now = toordinal now"
proof -
  from sub_days_ok[OF assms weekday_less[OF assms]] obtain ws where
    ws: "sub_days now (weekday now) = Inr ws" "valid_datetime ws"
        "toordinal ws + weekday now = toordinal now" by blast
  have "weekday ws = 0" using ws(3) unfolding weekday_def by presburger
  then show ?thesis using ws by blast
qed

section \<open>Facts about strftime and the order of date strings\<close>

lemma digit_table: "\<forall>m\<in>{0..<10}. (of_char (''0123456789'' ! m) :: nat) = 48 + m"
  by code_simp

lemma of_char_digit: "(of_char (digit n) :: nat) = 48 + n mod 10"
  using digit_table by (simp add: digit_def)

lemma digit_le_iff: "digit a \<le> digit b \<longleftrightarrow> a mod 10 \<le> b mod 10"
  by (simp add: less_eq_char_def of_char_digit)

lemma digit_less_iff: "digit a < digit b \<longleftrightarrow> a mod 10 < b mod 10"
  by (simp add: less_char_def of_char_digit)

lemma digit_eq_iff: "digit a = digit b \<longleftrightarrow> a mod 10 = b mod 10"
proof
  assume "digit a = digit b"
  then have "(of_char (digit a) :: nat) = of_char (digit b)" by simp
  then show "a mod 10 = b mod 10" by (simp only: of_char_digit add_left_cancel)
next
  assume "a mod 10 = b mod 10"
  then show "digit a = digit b" by (simp add: digit_def)
qed

lemma le_divmod:
  assumes "0 < k"
  shows "(a::nat) \<le> b \<longleftrightarrow> a div k < b div k \<or> (a div k = b div k \<and> a mod k \<le> b mod k)"
proof -
  have ea: "a = k * (a div k) + a mod k" and eb: "b = k * (b div k) + b mod k" by simp_all
  show ?thesis
  proof
    assume ab: "a \<le> b"
    then have "a div k \<le> b div k" by (rule div_le_mono)
    moreover have "a mod k \<le> b mod k" if "a div k = b div k"
      using ea eb ab that by (metis add_le_cancel_left)
    ultimately show "a div k < b div k \<or> (a div k = b div k \<and> a mod k \<le> b mod k)" by auto
  next
    assume "a div k < b div k \<or> (a div k = b div k \<and> a mod k \<le> b mod k)"
    then show "a \<le> b"
    proof
      assume "a div k < b div k"
      then show ?thesis using div_le_mono[of b a k] by (cases "a \<le> b") auto
    next
      assume h: "a div k = b div k \<and> a mod k \<le> b mod k"
      then show ?thesis using ea eb by (metis add_le_cancel_left)
    qed
  qed
qed

lemma pad2_le_iff: "a < 100 \<Longrightarrow> b < 100 \<Longrightarrow> pad2 a \<le> pad2 b \<longleftrightarrow> a \<le> b"
proof -
  assume a: "a < 100" and b: "b < 100"
  have qa: "a div 10 mod 10 = a div 10" using a by simp
  have qb: "b div 10 mod 10 = b div 10" using b by simp
  have "pad2 a \<le> pad2 b \<longleftrightarrow>
      a div 10 < b div 10 \<or> (a div 10 = b div 10 \<and> a mod 10 \<le> b mod 10)"
    unfolding pad2_def
    by (simp add: digit_less_iff digit_eq_iff digit_le_iff qa qb order_le_less) blast
  then show ?thesis using le_divmod[of 10 a b] by simp
qed

lemma mod_100_div_10: "(n::nat) mod 100 div 10 = n div 10 mod 10"
proof -
  have "n mod (10 * 10) = 10 * (n div 10 mod 10) + n mod 10" by (rule mod_mult2_eq)
  then have "n mod 100 = 10 * (n div 10 mod 10) + n mod 10" by simp
  then show ?thesis by simp
qed

lemma pad2_mod: "pad2 (n mod 100) = pad2 n"
  unfolding pad2_def by (simp add: digit_eq_iff mod_100_div_10 mod_mod_cancel)


lemma pad4_le_iff:
  assumes "a \<le> 9999" "b \<le> 9999"
  shows "pad4 a \<le> pad4 b \<longleftrightarrow> a \<le> b"
proof -
  have la: "a div 100 < 100" "a mod 100 < 100" and lb: "b div 100 < 100" "b mod 100 < 100"
    using assms by simp_all
  have len: "length (pad2 x) = 2" for x by (simp add: pad2_def)
  have eq: "pad2 (a div 100) = pad2 (b div 100) \<longleftrightarrow> a div 100 = b div 100"
    using pad2_le_iff[OF la(1) lb(1)] pad2_le_iff[OF lb(1) la(1)] by auto
  have lt: "pad2 (a div 100) < pad2 (b div 100) \<longleftrightarrow> a div 100 < b div 100"
    using pad2_le_iff[OF lb(1) la(1)] by (auto simp: not_le[symmetric])
  have "pad4 a \<le> pad4 b \<longleftrightarrow>
      pad2 (a div 100) < pad2 (b div 100)
      \<or> (pad2 (a div 100) = pad2 (b div 100) \<and> pad2 (a mod 100) \<le> pad2 (b mod 100))"
    unfolding pad4_def pad2_mod[of a, symmetric] pad2_mod[of b, symmetric]
    by (simp add: pad2_def order_le_less) blast
  also have "\<dots> \<longleftrightarrow> a div 100 < b div 100 \<or> (a div 100 = b div 100 \<and> a mod 100 \<le> b mod 100)"
    by (simp only: eq lt pad2_le_iff[OF la(2) lb(2)])
  also have "\<dots> \<longleftrightarrow> a \<le> b" using le_divmod[of 100 a b] by simp
  finally show ?thesis .
qed

section \<open>Facts about the error monad and the shape of a summary\<close>

lemma bind_err_Inl [simp]: "bind_err (Inl e) f = Inl e"
  by (simp add: bind_err_def)

lemma bind_err_Inr [simp]: "bind_err (Inr x) f = f x"
  by (simp add: bind_err_def)

lemma bind_err_eq_Inr: "bind_err m f = Inr y \<longleftrightarrow> (\<exists>x. m = Inr x \<and> f x = Inr y)"
  by (cases m) auto

lemma get_summary_shape:
  assumes "get_summary db now = Inr r"
  shows "remaining_week r = weekly_limit r - total_week r"
    and "remaining_month r = monthly_limit r - total_month r"
    and "weekly_warning r = warning_of (total_week r) (weekly_limit r)"
    and "monthly_warning r = warning_of (total_month r) (monthly_limit r)"
  using assms unfolding get_summary_def Let_def
  by (auto simp: bind_err_eq_Inr)

lemma get_summary_backend_shape:
  assumes "get_summary_backend db now = Inr r"
  shows "remaining_week r = weekly_limit r - total_week r"
    and "remaining_month r = monthly_limit r - total_month r"
    and "weekly_warning r = warning_of (total_week r) (weekly_limit r)"
    and "monthly_warning r = warning_of (total_month r) (monthly_limit r)"
  using assms unfolding get_summary_backend_def Let_def
  by (auto simp: bind_err_eq_Inr)

section \<open>The summary in closed form\<close>

lemma project_id_other [simp]: "k \<noteq> ''_id'' \<Longrightarrow> project_id d k = d k"
  by (simp add: project_id_def)

lemma find_docs_all [simp]: "find_docs q_all coll = map project_id coll"
  by (simp add: find_docs_def q_all_def)

lemma amount_of_project [simp]: "amount_of (project_id d) = amount_of d"
  by (simp add: amount_of_def)

lemma date_matches_project [simp]: "date_matches P (project_id d) = date_matches P d"
  by (simp add: date_matches_def)

lemma pending_of_project [simp]: "pending_of t (project_id d) = pending_of t d"
  by (simp add: pending_of_def)

lemma sum_where_project:
  "(\<And>d. P (project_id d) = P d) \<Longrightarrow> sum_where P (map project_id ds) = sum_where P ds"
  by (induction ds) (simp_all add: sum_where_def)

lemma sum_where_Nil [simp]: "sum_where P [] = 0"
  by (simp add: sum_where_def)

lemma sum_where_Cons [simp]:
  "sum_where P (d # ds) = (if P d then amount_of d + sum_where P ds else sum_where P ds)"
  by (simp add: sum_where_def)

lemma sum_amounts_spec:
  assumes "\<And>e. e \<in> set es \<Longrightarrow> cond e = Inr (P e)"
      and "\<And>e. e \<in> set es \<Longrightarrow> P e \<Longrightarrow> is_num (e ''amount'')"
  shows "sum_amounts cond es acc = Inr (acc + sum_where P es)"
  using assms
proof (induction es arbitrary: acc)
  case Nil
  then show ?case by simp
next
  case (Cons e es)
  have c: "cond e = Inr (P e)" using Cons.prems(1) by simp
  have ih: "sum_amounts cond es a = Inr (a + sum_where P es)" for a
    using Cons.IH Cons.prems by simp
  show ?case
  proof (cases "P e")
    case False
    then show ?thesis using c ih by simp
  next
    case True
    then have "is_num (e ''amount'')" using Cons.prems(2) by simp
    then obtain a where a: "e ''amount'' = Some (Num a)"
      by (auto simp: is_num_def split: option.splits val.splits)
    then show ?thesis using c ih True
      by (simp add: dict_index_def py_num_def amount_of_def)
  qed
qed


lemma strftime_ymd_not_Nil [simp]: "strftime_ymd dt \<noteq> []" "\<not> strftime_ymd dt \<le> []"
  by (simp_all add: strftime_ymd_def pad4_def pad2_def)

lemma list_all_take: "list_all P xs \<Longrightarrow> list_all P (take n xs)"
  by (auto simp: list_all_iff dest: in_set_takeD)

lemma cond_today: "(dict_get e ''date'' = Str t) = date_matches (\<lambda>s. s = t) e"
  by (auto simp: dict_get_def date_matches_def split: option.splits val.splits)

lemma cond_ge_lenient:
  "e ''date'' = None \<or> is_str (e ''date'') \<Longrightarrow> t \<noteq> [] \<Longrightarrow>
   py_ge_str (dict_get_default e ''date'' (Str [])) t = Inr (date_matches (\<lambda>s. t \<le> s) e)"
  by (auto simp: dict_get_default_def date_matches_def py_ge_str_def is_str_def
           split: option.splits val.splits)

lemma cond_pending:
  "(dict_get d ''debt_type'' = Str t \<and> dict_get d ''status'' = Str ''pending'') = pending_of t d"
  by (auto simp: dict_get_def pending_of_def split: option.splits val.splits)

lemma limit_lookup_main:
  assumes "wf_limits coll" "k = ''weekly_limit'' \<or> k = ''monthly_limit''"
  shows "py_num (case find_one (q_id ''limit_settings'') coll of None \<Rightarrow> Num 0
                 | Some l \<Rightarrow> dict_get_default l k (Num 0)) = Inr (limit_of k coll)"
  using assms
  by (auto simp: wf_limits_def limit_of_def py_num_def dict_get_default_def is_num_def
           split: option.splits val.splits)

lemma sum_expenses_main:
  assumes "list_all lenient_expense es"
  shows "sum_amounts (\<lambda>e. Inr (dict_get e ''date'' = Str t)) (map project_id es) acc
           = Inr (acc + sum_where (date_matches (\<lambda>s. s = t)) es)"
    and "t \<noteq> [] \<Longrightarrow>
         sum_amounts (\<lambda>e. py_ge_str (dict_get_default e ''date'' (Str [])) t) (map project_id es) acc
           = Inr (acc + sum_where (date_matches (\<lambda>s. t \<le> s)) es)"
proof -
  have len: "\<And>e. e \<in> set (map project_id es) \<Longrightarrow> lenient_expense e"
    using assms by (auto simp: list_all_iff lenient_expense_def)
  show "sum_amounts (\<lambda>e. Inr (dict_get e ''date'' = Str t)) (map project_id es) acc
           = Inr (acc + sum_where (date_matches (\<lambda>s. s = t)) es)"
    using sum_amounts_spec[of "map project_id es" "\<lambda>e. Inr (dict_get e ''date'' = Str t)"
        "date_matches (\<lambda>s. s = t)" acc] len
    by (simp add: cond_today lenient_expense_def sum_where_project)
  show "sum_amounts (\<lambda>e. py_ge_str (dict_get_default e ''date'' (Str [])) t) (map project_id es) acc
           = Inr (acc + sum_where (date_matches (\<lambda>s. t \<le> s)) es)" if "t \<noteq> []"
    using sum_amounts_spec[of "map project_id es"
        "\<lambda>e. py_ge_str (dict_get_default e ''date'' (Str [])) t" "date_matches (\<lambda>s. t \<le> s)" acc]
      len that
    by (simp add: cond_ge_lenient lenient_expense_def sum_where_project)
qed

lemma sum_debts_main:
  assumes "list_all (\<lambda>d. is_num (d ''amount'')) ds"
  shows "sum_amounts (\<lambda>d. Inr (dict_get d ''debt_type'' = Str t \<and> dict_get d ''status'' = Str ''pending''))
           (map project_id ds) acc = Inr (acc + sum_where (pending_of t) ds)"
proof -
  have "\<And>e. e \<in> set (map project_id ds) \<Longrightarrow> is_num (e ''amount'')"
    using assms by (auto simp: list_all_iff)
  then show ?thesis
    using sum_amounts_spec[of "map project_id ds"
        "\<lambda>d. Inr (dict_get d ''debt_type'' = Str t \<and> dict_get d ''status'' = Str ''pending'')"
        "pending_of t" acc]
    by (simp add: cond_pending sum_where_project)
qed

lemma get_summary_closed:
  assumes "lenient_store db" "sub_days now (weekday now) = Inr ws"
  shows "get_summary db now =
     Inr (summary_of db (strftime_ymd now) (strftime_ymd ws) (strftime_ymd (now\<lparr>day := 1\<rparr>)))"
proof -
  have es: "list_all lenient_expense (take 10000 (expenses db))"
    and ds: "list_all (\<lambda>d. is_num (d ''amount'')) (take 10000 (debts db))"
    and ls: "wf_limits (limits db)"
    using assms(1) by (simp_all add: lenient_store_def list_all_take)
  show ?thesis
    unfolding get_summary_def summary_of_def Let_def to_list_def find_docs_all take_map
    by (simp add: assms(2) sum_expenses_main[OF es] sum_debts_main[OF ds]
        limit_lookup_main[OF ls])
qed

lemma cond_today_backend:
  "is_str (e ''date'') \<Longrightarrow>
   bind_err (dict_index e ''date'') (\<lambda>v. Inr (v = Str t)) = Inr (date_matches (\<lambda>s. s = t) e)"
  by (auto simp: dict_index_def date_matches_def is_str_def split: option.splits val.splits)

lemma cond_ge_backend:
  "is_str (e ''date'') \<Longrightarrow>
   bind_err (dict_index e ''date'') (\<lambda>v. py_ge_str v t) = Inr (date_matches (\<lambda>s. t \<le> s) e)"
  by (auto simp: dict_index_def date_matches_def is_str_def py_ge_str_def
           split: option.splits val.splits)

lemma debt_cond_backend_wf:
  "is_str (d ''debt_type'') \<Longrightarrow> is_str (d ''status'') \<Longrightarrow>
   debt_cond_backend t d = Inr (pending_of t d)"
  by (auto simp: debt_cond_backend_def dict_index_def pending_of_def is_str_def
           split: option.splits val.splits)

lemma limit_lookup_backend:
  assumes "wf_limits coll" "k = ''weekly_limit'' \<or> k = ''monthly_limit''"
  shows "(case find_one (q_id ''limit_settings'') coll of None \<Rightarrow> Inr (Num 0)
          | Some l \<Rightarrow> dict_index l k) = Inr (Num (limit_of k coll))"
  using assms
  by (auto simp: wf_limits_def limit_of_def dict_index_def is_num_def
           split: option.splits val.splits)

lemma sum_expenses_backend:
  assumes "list_all wf_expense es"
  shows "sum_amounts (\<lambda>e. bind_err (dict_index e ''date'') (\<lambda>v. Inr (v = Str t))) (map project_id es) acc
           = Inr (acc + sum_where (date_matches (\<lambda>s. s = t)) es)"
    and "sum_amounts (\<lambda>e. bind_err (dict_index e ''date'') (\<lambda>v. py_ge_str v t)) (map project_id es) acc
           = Inr (acc + sum_where (date_matches (\<lambda>s. t \<le> s)) es)"
proof -
  have wf: "\<And>e. e \<in> set (map project_id es) \<Longrightarrow> wf_expense e"
    using assms by (auto simp: list_all_iff wf_expense_def)
  show "sum_amounts (\<lambda>e. bind_err (dict_index e ''date'') (\<lambda>v. Inr (v = Str t))) (map project_id es) acc
           = Inr (acc + sum_where (date_matches (\<lambda>s. s = t)) es)"
    using sum_amounts_spec[of "map project_id es"
        "\<lambda>e. bind_err (dict_index e ''date'') (\<lambda>v. Inr (v = Str t))" "date_matches (\<lambda>s. s = t)" acc] wf
    by (simp add: cond_today_backend wf_expense_def sum_where_project)
  show "sum_amounts (\<lambda>e. bind_err (dict_index e ''date'') (\<lambda>v. py_ge_str v t)) (map project_id es) acc
           = Inr (acc + sum_where (date_matches (\<lambda>s. t \<le> s)) es)"
    using sum_amounts_spec[of "map project_id es"
        "\<lambda>e. bind_err (dict_index e ''date'') (\<lambda>v. py_ge_str v t)" "date_matches (\<lambda>s. t \<le> s)" acc] wf
    by (simp add: cond_ge_backend wf_expense_def sum_where_project)
qed

lemma sum_debts_backend:
  assumes "list_all wf_debt ds"
  shows "sum_amounts (debt_cond_backend t) (map project_id ds) acc
           = Inr (acc + sum_where (pending_of t) ds)"
proof -
  have "\<And>e. e \<in> set (map project_id ds) \<Longrightarrow> wf_debt e"
    using assms by (auto simp: list_all_iff wf_debt_def)
  then show ?thesis
    using sum_amounts_spec[of "map project_id ds" "debt_cond_backend t" "pending_of t" acc]
    by (simp add: debt_cond_backend_wf wf_debt_def sum_where_project)
qed

lemma get_summary_backend_closed:
  assumes "wf_store db" "sub_days now (weekday now) = Inr ws"
  shows "get_summary_backend db now =
     Inr (summary_of db (strftime_ymd now) (strftime_ymd ws) (strftime_ymd (now\<lparr>day := 1\<rparr>)))"
proof -
  have es: "list_all wf_expense (take 10000 (expenses db))"
    and ds: "list_all wf_debt (take 10000 (debts db))"
    and ls: "wf_limits (limits db)"
    using assms(1) by (simp_all add: wf_store_def list_all_take)
  show ?thesis
    unfolding get_summary_backend_def summary_of_def Let_def to_list_def find_docs_all take_map
    by (simp add: assms(2) sum_expenses_backend[OF es] sum_debts_backend[OF ds]
        limit_lookup_backend[OF ls] py_num_def)
qed

lemma wf_store_lenient: "wf_store db \<Longrightarrow> lenient_store db"
  by (auto simp: wf_store_def lenient_store_def list_all_iff wf_expense_def lenient_expense_def
      wf_debt_def)

lemma get_summary_returns:
  assumes "wf_store db" "valid_datetime now"
  shows "\<exists>ws. sub_days now (weekday now) = Inr ws \<and> weekday ws = 0 \<and> valid_datetime ws
          \<and> toordinal ws + weekday now = toordinal now
          \<and> get_summary db now =
              Inr (summary_of db (strftime_ymd now) (strftime_ymd ws) (strftime_ymd (now\<lparr>day := 1\<rparr>)))
          \<and> get_summary_backend db now =
              Inr (summary_of db (strftime_ymd now) (strftime_ymd ws) (strftime_ymd (now\<lparr>day := 1\<rparr>)))"
proof -
  from week_start_ok[OF assms(2)] obtain ws where
    ws: "sub_days now (weekday now) = Inr ws" "valid_datetime ws" "weekday ws = 0"
        "toordinal ws + weekday now = toordinal now" by blast
  show ?thesis
    using ws get_summary_closed[OF wf_store_lenient[OF assms(1)] ws(1)]
      get_summary_backend_closed[OF assms(1) ws(1)]
    by blast
qed

section \<open>The concrete store evaluated\<close>

lemma days_before_month_5: "days_before_month y 5 = (if is_leap y then 121 else 120)"
  by (simp add: eval_nat_numeral days_in_month_def)

lemma valid_now_ex: "valid_datetime now_ex"
  by (simp add: valid_datetime_def now_ex_def days_in_month_def)

lemma weekday_now_ex: "weekday now_ex = 2"
  by (simp add: weekday_def toordinal_def now_ex_def days_before_year_def days_before_month_5
      is_leap_def)

lemma week_start_ex: "sub_days now_ex (weekday now_ex) = Inr (now_ex\<lparr>day := 13\<rparr>)"
  by (simp only: weekday_now_ex numeral_2_eq_2) (simp add: prev_day_def now_ex_def)

lemma strftime_ex:
  "strftime_ymd now_ex = ''2024-05-15''"
  "strftime_ymd (now_ex\<lparr>day := 13\<rparr>) = ''2024-05-13''"
  "strftime_ymd (now_ex\<lparr>day := 1\<rparr>) = ''2024-05-01''"
  "strftime_ymd (now_ex\<lparr>day := Suc 0\<rparr>) = ''2024-05-01''"
  by (simp_all add: strftime_ymd_def pad4_def pad2_def digit_def now_ex_def)

lemma wf_store_ex: "wf_store store_ex"
  by (simp add: wf_store_def store_ex_def expenses_ex_def debts_ex_def wf_expense_def wf_debt_def
      wf_limits_def find_one_def q_id_def limit_doc_def expense_doc_def debt_doc_def is_num_def
      is_str_def project_id_def)

lemma summary_of_ex:
  "summary_of store_ex ''2024-05-15'' ''2024-05-13'' ''2024-05-01'' = summary_ex"
  by (simp add: summary_of_def summary_ex_def store_ex_def expenses_ex_def debts_ex_def
      expense_doc_def debt_doc_def limit_doc_def limit_of_def find_one_def q_id_def project_id_def
      date_matches_def pending_of_def amount_of_def warning_of_def Let_def)

lemma get_summary_ex: "get_summary store_ex now_ex = Inr summary_ex"
  using get_summary_closed[OF wf_store_lenient[OF wf_store_ex] week_start_ex]
  by (simp add: strftime_ex summary_of_ex)

lemma get_summary_backend_ex: "get_summary_backend store_ex now_ex = Inr summary_ex"
  using get_summary_backend_closed[OF wf_store_ex week_start_ex]
  by (simp add: strftime_ex summary_of_ex)

lemma wf_store_nolimit_ex: "wf_store store_nolimit_ex"
  by (simp add: wf_store_def store_nolimit_ex_def expenses_ex_def debts_ex_def wf_expense_def
      wf_debt_def wf_limits_def find_one_def expense_doc_def debt_doc_def is_num_def is_str_def)

lemma summary_of_nolimit_ex:
  "summary_of store_nolimit_ex ''2024-05-15'' ''2024-05-13'' ''2024-05-01'' = summary_nolimit_ex"
  by (simp add: summary_of_def summary_nolimit_ex_def store_nolimit_ex_def expenses_ex_def
      debts_ex_def expense_doc_def debt_doc_def limit_of_def find_one_def
      date_matches_def pending_of_def amount_of_def warning_of_def Let_def)

lemma get_summary_nolimit_ex: "get_summary store_nolimit_ex now_ex = Inr summary_nolimit_ex"
  using get_summary_closed[OF wf_store_lenient[OF wf_store_nolimit_ex] week_start_ex]
  by (simp add: strftime_ex summary_of_nolimit_ex)

lemma get_summary_backend_nolimit_ex:
  "get_summary_backend store_nolimit_ex now_ex = Inr summary_nolimit_ex"
  using get_summary_backend_closed[OF wf_store_nolimit_ex week_start_ex]
  by (simp add: strftime_ex summary_of_nolimit_ex)

lemma no_limit_ex: "find_one (q_id ''limit_settings'') (limits store_nolimit_ex) = None"
  by (simp add: store_nolimit_ex_def find_one_def)

lemma warning_of_classify: "warning_of spent lmt = classify spent lmt"
  by (auto simp: warning_of_def classify_def Let_def)

lemma warning_of_nonpos: "lmt \<le> 0 \<Longrightarrow> warning_of spent lmt = ''none''"
  by (simp add: warning_of_def)

lemma get_summary_limits_absent:
  assumes "find_one (q_id ''limit_settings'') (limits db) = None"
    and "get_summary db now = Inr r"
  shows "weekly_limit r = 0" and "monthly_limit r = 0"
  using assms unfolding get_summary_def Let_def
  by (auto simp: bind_err_eq_Inr py_num_def)

lemma get_summary_backend_limits_absent:
  assumes "find_one (q_id ''limit_settings'') (limits db) = None"
    and "get_summary_backend db now = Inr r"
  shows "weekly_limit r = 0" and "monthly_limit r = 0"
  using assms unfolding get_summary_backend_def Let_def
  by (auto simp: bind_err_eq_Inr py_num_def)

lemma no_limits_wf: "find_one (q_id ''limit_settings'') coll = None \<Longrightarrow> wf_limits coll"
  by (simp add: wf_limits_def)

lemma sum_where_none: "(\<And>d. d \<in> set ds \<Longrightarrow> \<not> P d) \<Longrightarrow> sum_where P ds = 0"
  by (simp add: sum_where_def)

lemma sum_where_append: "sum_where P (xs @ ys) = sum_where P xs + sum_where P ys"
  by (simp add: sum_where_def)

lemma length_old_expenses: "length old_expenses = 10000"
  by (simp add: old_expenses_def)

lemma length_old_debts: "length old_debts = 10000"
  by (simp add: old_debts_def)

lemma old_expense_fields:
  "d \<in> set old_expenses \<Longrightarrow> d ''amount'' = Some (Num 1) \<and> d ''date'' = Some (Str ''2023-01-01'')"
  by (auto simp: old_expenses_def old_expense_def expense_doc_def)

lemma old_debt_fields:
  "d \<in> set old_debts \<Longrightarrow>
     d ''amount'' = Some (Num 1) \<and> d ''status'' = Some (Str ''paid'')
     \<and> d ''debt_type'' = Some (Str ''gave'')"
  by (auto simp: old_debts_def old_debt_def debt_doc_def)

lemma take_big_expenses: "take 10000 (old_expenses @ ys) = old_expenses"
  by (simp add: length_old_expenses)

lemma take_big_debts: "take 10000 (old_debts @ ys) = old_debts"
  by (simp add: length_old_debts)

lemma wf_old_expenses: "list_all wf_expense old_expenses"
  unfolding list_all_iff
proof
  fix d assume "d \<in> set old_expenses"
  from old_expense_fields[OF this] show "wf_expense d"
    by (simp add: wf_expense_def is_num_def is_str_def)
qed

lemma wf_old_debts: "list_all wf_debt old_debts"
  unfolding list_all_iff
proof
  fix d assume "d \<in> set old_debts"
  from old_debt_fields[OF this] show "wf_debt d"
    by (simp add: wf_debt_def is_num_def is_str_def)
qed

lemma wf_store_big_ex: "wf_store store_big_ex"
  by (simp add: wf_store_def store_big_ex_def wf_old_expenses wf_old_debts wf_expense_def
      wf_debt_def wf_limits_def find_one_def is_num_def is_str_def expense_doc_def debt_doc_def)

lemma old_expenses_sum:
  "sum_where (date_matches ((=) ''2024-05-15'')) old_expenses = 0"
  "sum_where (date_matches (\<lambda>s. s = ''2024-05-15'')) old_expenses = 0"
  "sum_where (date_matches ((\<le>) ''2024-05-13'')) old_expenses = 0"
  "sum_where (date_matches ((\<le>) ''2024-05-01'')) old_expenses = 0"
  by (rule sum_where_none, drule old_expense_fields, simp add: date_matches_def)+

lemma old_debts_sum: "sum_where (pending_of t) old_debts = 0"
  by (rule sum_where_none, drule old_debt_fields, simp add: pending_of_def)

lemma summary_of_big_ex:
  "summary_of store_big_ex ''2024-05-15'' ''2024-05-13'' ''2024-05-01'' = summary_big_ex"
  by (simp add: summary_of_def summary_big_ex_def store_big_ex_def length_old_expenses
      length_old_debts old_expenses_sum old_debts_sum limit_of_def find_one_def warning_of_def
      Let_def)

lemma get_summary_big_ex: "get_summary store_big_ex now_ex = Inr summary_big_ex"
  using get_summary_closed[OF wf_store_lenient[OF wf_store_big_ex] week_start_ex]
  by (simp add: strftime_ex summary_of_big_ex)

lemma get_summary_backend_big_ex: "get_summary_backend store_big_ex now_ex = Inr summary_big_ex"
  using get_summary_backend_closed[OF wf_store_big_ex week_start_ex]
  by (simp add: strftime_ex summary_of_big_ex)

lemma big_expenses_sum:
  "sum_where (date_matches ((=) ''2024-05-15'')) (expenses store_big_ex) = 50"
  "sum_where (date_matches ((\<le>) ''2024-05-13'')) (expenses store_big_ex) = 50"
  "sum_where (date_matches ((\<le>) ''2024-05-01'')) (expenses store_big_ex) = 50"
  by (simp_all add: store_big_ex_def sum_where_append old_expenses_sum expense_doc_def
      date_matches_def amount_of_def)

lemma big_debts_sum:
  "sum_where (pending_of ''gave'') (debts store_big_ex) = 100"
  by (simp add: store_big_ex_def sum_where_append old_debts_sum debt_doc_def
      pending_of_def amount_of_def)

lemma summary_of_fields:
  "total_today (summary_of db t w m) = sum_where (date_matches (\<lambda>s. s = t)) (take 10000 (expenses db))"
  "total_week (summary_of db t w m) = sum_where (date_matches (\<lambda>s. w \<le> s)) (take 10000 (expenses db))"
  "total_month (summary_of db t w m) = sum_where (date_matches (\<lambda>s. m \<le> s)) (take 10000 (expenses db))"
  "money_gave (summary_of db t w m) = sum_where (pending_of ''gave'') (take 10000 (debts db))"
  "money_owe (summary_of db t w m) = sum_where (pending_of ''owe'') (take 10000 (debts db))"
  by (simp_all add: summary_of_def Let_def)

lemma get_summary_truncate:
  "get_summary db now =
   get_summary (db\<lparr>expenses := take 10000 (expenses db), debts := take 10000 (debts db)\<rparr>) now"
  by (simp add: get_summary_def to_list_def take_map)

lemma get_summary_backend_truncate:
  "get_summary_backend db now =
   get_summary_backend (db\<lparr>expenses := take 10000 (expenses db), debts := take 10000 (debts db)\<rparr>) now"
  by (simp add: get_summary_backend_def to_list_def take_map)

lemma wf_debt_mark_paid: "wf_debt d \<Longrightarrow> wf_debt (mark_paid d)"
  by (simp add: wf_debt_def mark_paid_def is_str_def)

lemma wf_store_mark_paid: "wf_store db \<Longrightarrow> wf_store (db\<lparr>debts := map mark_paid (debts db)\<rparr>)"
  by (simp add: wf_store_def list_all_iff wf_debt_mark_paid)

lemma not_pending_mark_paid: "\<not> pending_of t (mark_paid d)"
  by (simp add: pending_of_def mark_paid_def)

lemma sum_where_mark_paid: "sum_where (pending_of t) (take n (map mark_paid ds)) = 0"
  by (rule sum_where_none) (auto dest!: in_set_takeD simp: not_pending_mark_paid)

lemma erase_set_fields:
  "set (map fst kvs) \<subseteq> set ks \<Longrightarrow> erase_fields ks (set_fields kvs d) = erase_fields ks d"
proof (rule ext)
  fix k assume a: "set (map fst kvs) \<subseteq> set ks"
  show "erase_fields ks (set_fields kvs d) k = erase_fields ks d k"
  proof (cases "k \<in> set ks")
    case True then show ?thesis by (simp add: erase_fields_def)
  next
    case False
    with a have "k \<notin> fst ` set kvs" by auto
    then have "map_of kvs k = None" by (simp add: map_of_eq_None_iff)
    with False show ?thesis by (simp add: erase_fields_def set_fields_def map_add_def)
  qed
qed

lemma update_first_erase:
  "(\<And>d. erase_fields ks (f d) = erase_fields ks d) \<Longrightarrow>
   map (erase_fields ks) (update_first q f coll) = map (erase_fields ks) coll"
  by (induction coll) simp_all

lemma find_one_and_update_erase:
  assumes "set (map fst kvs) \<subseteq> set ks"
  shows "map (erase_fields ks) (snd (find_one_and_update q kvs coll)) = map (erase_fields ks) coll"
  using update_first_erase[of ks "set_fields kvs" q coll] erase_set_fields[OF assms]
  by (simp add: find_one_and_update_def split: list.splits)

lemma update_expense_store:
  "snd (update_expense fromiso db expense_id inp) =
     db\<lparr>expenses := snd (find_one_and_update (q_id expense_id) (model_dump inp) (expenses db))\<rparr>"
  by (simp add: update_expense_def Let_def split: prod.splits option.splits)

lemma update_debt_store:
  "snd (update_debt fromiso db debt_id inp) =
     db\<lparr>debts := snd (find_one_and_update (q_id debt_id) [(''status'', Str (du_status inp))] (debts db))\<rparr>"
  by (simp add: update_debt_def Let_def split: prod.splits option.splits)

lemma erase_fields_other: "k \<notin> set ks \<Longrightarrow> erase_fields ks d k = d k"
  by (simp add: erase_fields_def)

lemma map_field_of_erase:
  assumes "map (erase_fields ks) xs = map (erase_fields ks) ys" and "k \<notin> set ks"
  shows "map (\<lambda>d. d k) xs = map (\<lambda>d. d k) ys"
proof -
  have "map (\<lambda>d. d k) zs = map (\<lambda>e. e k) (map (erase_fields ks) zs)" for zs
    using assms(2) by (simp add: erase_fields_other)
  then show ?thesis using assms(1) by metis
qed

lemma update_expense_frame:
  "map (erase_fields expense_fields) (expenses (snd (update_expense fromiso db expense_id inp)))
     = map (erase_fields expense_fields) (expenses db)"
  unfolding update_expense_store
  using find_one_and_update_erase[of "model_dump inp" expense_fields "q_id expense_id" "expenses db"]
  by (simp add: model_dump_def expense_fields_def)

lemma update_debt_frame:
  "map (erase_fields [''status'']) (debts (snd (update_debt fromiso db debt_id inp)))
     = map (erase_fields [''status'']) (debts db)"
  unfolding update_debt_store
  using find_one_and_update_erase[of "[(''status'', Str (du_status inp))]" "[''status'']"
      "q_id debt_id" "debts db"]
  by simp

lemma length_big_ex:
  "length (expenses store_big_ex) = 10001" "length (debts store_big_ex) = 10001"
  by (simp_all add: store_big_ex_def length_old_expenses length_old_debts)

lemma update_first_nth:
  "i < length coll \<Longrightarrow> q (coll ! i) \<Longrightarrow> (\<forall>j<i. \<not> q (coll ! j)) \<Longrightarrow>
   update_first q f coll = coll[i := f (coll ! i)]"
proof (induction coll arbitrary: i)
  case Nil
  then show ?case by simp
next
  case (Cons d ds)
  show ?case
  proof (cases i)
    case 0
    with Cons.prems show ?thesis by simp
  next
    case (Suc k)
    with Cons.prems have nq: "\<not> q d" by auto
    from Suc Cons.prems have "k < length ds" "q (ds ! k)" "\<forall>j<k. \<not> q (ds ! j)" by auto
    from Cons.IH[OF this] nq Suc show ?thesis by simp
  qed
qed

lemma filter_first_nth:
  "i < length coll \<Longrightarrow> q (coll ! i) \<Longrightarrow> (\<forall>j<i. \<not> q (coll ! j)) \<Longrightarrow>
   \<exists>rest. filter q coll = coll ! i # rest"
proof (induction coll arbitrary: i)
  case Nil
  then show ?case by simp
next
  case (Cons d ds)
  show ?case
  proof (cases i)
    case 0
    with Cons.prems show ?thesis by simp
  next
    case (Suc k)
    with Cons.prems have nq: "\<not> q d" by auto
    from Suc Cons.prems have "k < length ds" "q (ds ! k)" "\<forall>j<k. \<not> q (ds ! j)" by auto
    from Cons.IH[OF this] nq Suc show ?thesis by simp
  qed
qed

lemma find_one_and_update_nth:
  assumes "i < length coll" "q (coll ! i)" "\<forall>j<i. \<not> q (coll ! j)"
  shows "find_one_and_update q kvs coll =
           (Some (set_fields kvs (coll ! i)), coll[i := set_fields kvs (coll ! i)])"
  using assms filter_first_nth[of i coll q] update_first_nth[of i coll q "set_fields kvs"]
  by (auto simp: find_one_and_update_def)

lemma set_fields_model_dump:
  "set_fields (model_dump inp) d ''title'' = Some (Str (ec_title inp))"
  "set_fields (model_dump inp) d ''amount'' = Some (Num (ec_amount inp))"
  "set_fields (model_dump inp) d ''date'' = Some (Str (ec_date inp))"
  "set_fields (model_dump inp) d ''category'' = Some (Str (ec_category inp))"
  "set_fields (model_dump inp) d ''id'' = d ''id''"
  "set_fields (model_dump inp) d ''timestamp'' = d ''timestamp''"
  by (simp_all add: set_fields_def model_dump_def map_add_def)

lemma set_fields_status:
  "set_fields [(''status'', Str s)] d ''status'' = Some (Str s)"
  "k \<noteq> ''status'' \<Longrightarrow> set_fields [(''status'', Str s)] d k = d k"
  by (simp_all add: set_fields_def map_add_def)

lemma update_expense_effect:
  assumes "i < length (expenses db)" "q_id expense_id (expenses db ! i)"
    "\<forall>j<i. \<not> q_id expense_id (expenses db ! j)"
  shows "expenses (snd (update_expense fromiso db expense_id inp)) =
           (expenses db)[i := set_fields (model_dump inp) (expenses db ! i)]"
  unfolding update_expense_store
  using assms find_one_and_update_nth[of i "expenses db" "q_id expense_id" "model_dump inp"]
  by simp

lemma update_debt_effect:
  assumes "i < length (debts db)" "q_id debt_id (debts db ! i)"
    "\<forall>j<i. \<not> q_id debt_id (debts db ! j)"
  shows "debts (snd (update_debt fromiso db debt_id upd)) =
           (debts db)[i := set_fields [(''status'', Str (du_status upd))] (debts db ! i)]"
  unfolding update_debt_store
  using assms find_one_and_update_nth[of i "debts db" "q_id debt_id"
      "[(''status'', Str (du_status upd))]"]
  by simp

lemma store_ex_nth:
  "expenses store_ex ! 0 = expense_doc ''e1'' ''Grocery Shopping'' 50 ''2024-05-15'' ''Food''"
  "expenses store_ex ! 1 = expense_doc ''e2'' ''Uber Ride'' (31 / 2) ''2024-05-15'' ''Travel''"
  "length (expenses store_ex) = 3"
  "debts store_ex ! 0 = debt_doc ''d1'' ''John Doe'' 100 ''pending'' ''gave''"
  "length (debts store_ex) = 2"
  by (simp_all add: store_ex_def expenses_ex_def debts_ex_def)

lemma doc_ex_fields:
  "expense_doc i t a d c ''id'' = Some (Str i)"
  "expense_doc i t a d c ''timestamp'' = Some (Stamp now_ex)"
  "expense_doc i t a d c ''title'' = Some (Str t)"
  "debt_doc i n a s ty ''id'' = Some (Str i)"
  "debt_doc i n a s ty ''status'' = Some (Str s)"
  "debt_doc i n a s ty ''debt_type'' = Some (Str ty)"
  by (simp_all add: expense_doc_def debt_doc_def)

lemma store_ex_nth_Suc:
  "expenses store_ex ! Suc 0 = expense_doc ''e2'' ''Uber Ride'' (31 / 2) ''2024-05-15'' ''Travel''"
  by (simp add: store_ex_def expenses_ex_def)

lemma strftime_midnight: "strftime_ymd (midnight dt) = strftime_ymd dt"
  by (simp add: strftime_ymd_def midnight_def)

lemma day_expense_fields:
  "today_expense ''date'' = Some (Str ''2024-05-15'')"
  "tomorrow_expense ''date'' = Some (Str ''2024-05-16'')"
  "today_expense ''timestamp'' = Some (Stamp now_ex)"
  "tomorrow_expense ''timestamp'' = Some (Stamp now_ex)"
  "today_expense ''amount'' = Some (Num 50)"
  "tomorrow_expense ''amount'' = Some (Num 80)"
  by (simp_all add: today_expense_def tomorrow_expense_def expense_doc_def)

lemma wf_store_day_ex: "wf_store store_day_ex"
  by (simp add: wf_store_def store_day_ex_def wf_expense_def wf_limits_def find_one_def
      day_expense_fields is_num_def is_str_def)

lemma get_expenses_day_ex:
  "get_expenses fromiso store_day_ex now_ex (Some ''day'') = Inr [project_id today_expense]"
  by (simp add: get_expenses_def Let_def strftime_midnight strftime_ex store_day_ex_def
      find_docs_def to_list_def q_date_gte_lte_def day_expense_fields fix_timestamp_def
      dict_get_def sort_by_key_desc_def dict_get_default_def)

lemma get_expenses_backend_day_ex:
  "get_expenses_backend fromiso store_day_ex now_ex (Some ''day'')
     = Inr [project_id tomorrow_expense, project_id today_expense]"
  by (simp add: get_expenses_backend_def Let_def strftime_midnight strftime_ex store_day_ex_def
      find_docs_def to_list_def q_date_gte_def day_expense_fields fix_timestamp_backend_def
      dict_index_def sort_by_key_desc_def val_lt_def)

lemma day_expenses_differ: "project_id tomorrow_expense \<noteq> project_id today_expense"
proof
  assume "project_id tomorrow_expense = project_id today_expense"
  then have "project_id tomorrow_expense ''date'' = project_id today_expense ''date''" by simp
  then show False by (simp add: day_expense_fields)
qed

lemma append_le_iff:
  "length xs = length ys \<Longrightarrow>
   xs @ us \<le> ys @ vs \<longleftrightarrow> xs < ys \<or> (xs = ys \<and> us \<le> vs)"
  for xs ys us vs :: string
  by (induction xs ys rule: list_induct2) auto

lemma length_pad2: "length (pad2 n) = 2"
  by (simp add: pad2_def)

lemma length_pad4: "length (pad4 n) = 4"
  by (simp add: pad4_def length_pad2)

lemma pad2_less_iff: "a < 100 \<Longrightarrow> b < 100 \<Longrightarrow> pad2 a < pad2 b \<longleftrightarrow> a < b"
  using pad2_le_iff[of b a] by (auto simp: not_le[symmetric])

lemma pad2_eq_iff: "a < 100 \<Longrightarrow> b < 100 \<Longrightarrow> pad2 a = pad2 b \<longleftrightarrow> a = b"
  using pad2_le_iff[of a b] pad2_le_iff[of b a] by auto

lemma pad4_less_iff: "a \<le> 9999 \<Longrightarrow> b \<le> 9999 \<Longrightarrow> pad4 a < pad4 b \<longleftrightarrow> a < b"
  using pad4_le_iff[of b a] by (auto simp: not_le[symmetric])

lemma pad4_eq_iff: "a \<le> 9999 \<Longrightarrow> b \<le> 9999 \<Longrightarrow> pad4 a = pad4 b \<longleftrightarrow> a = b"
  using pad4_le_iff[of a b] pad4_le_iff[of b a] by auto

lemma ymd_le_iff:
  assumes "y \<le> 9999" "y' \<le> 9999" "m < 100" "m' < 100" "d < 100" "d' < 100"
  shows "pad4 y @ ''-'' @ pad2 m @ ''-'' @ pad2 d \<le> pad4 y' @ ''-'' @ pad2 m' @ ''-'' @ pad2 d'
     \<longleftrightarrow> y < y' \<or> (y = y' \<and> (m < m' \<or> (m = m' \<and> d \<le> d')))"
proof -
  have "pad4 y @ ''-'' @ pad2 m @ ''-'' @ pad2 d \<le> pad4 y' @ ''-'' @ pad2 m' @ ''-'' @ pad2 d'
      \<longleftrightarrow> pad4 y < pad4 y' \<or> (pad4 y = pad4 y' \<and>
            pad2 m @ ''-'' @ pad2 d \<le> pad2 m' @ ''-'' @ pad2 d')"
    by (subst append_le_iff) (simp_all add: length_pad4)
  also have "pad2 m @ ''-'' @ pad2 d \<le> pad2 m' @ ''-'' @ pad2 d'
      \<longleftrightarrow> pad2 m < pad2 m' \<or> (pad2 m = pad2 m' \<and> pad2 d \<le> pad2 d')"
    by (subst append_le_iff) (simp_all add: length_pad2)
  finally show ?thesis
    using assms by (simp add: pad4_less_iff pad4_eq_iff pad2_less_iff pad2_eq_iff pad2_le_iff)
qed

lemma strftime_ymd_le_iff:
  assumes "year a \<le> 9999" "year b \<le> 9999" "month a < 100" "month b < 100"
    "day a < 100" "day b < 100"
  shows "strftime_ymd a \<le> strftime_ymd b \<longleftrightarrow> date_le a b"
  unfolding strftime_ymd_def date_le_def by (rule ymd_le_iff[OF assms])

lemma valid_datetime_bounds:
  assumes "valid_datetime dt"
  shows "year dt \<le> 9999" "month dt < 100" "day dt < 100"
proof -
  from assms have "day dt \<le> days_in_month (year dt) (month dt)" "month dt \<le> 12" "year dt \<le> 9999"
    by (simp_all add: valid_datetime_def)
  moreover have "days_in_month (year dt) (month dt) \<le> 31"
    by (simp add: days_in_month_def)
  ultimately show "year dt \<le> 9999" "month dt < 100" "day dt < 100" by simp_all
qed

lemma date_le_refl: "date_le a a"
  by (simp add: date_le_def)

lemma date_le_trans: "date_le a b \<Longrightarrow> date_le b c \<Longrightarrow> date_le a c"
  by (auto simp: date_le_def)

lemma date_le_prev_day:
  "valid_datetime dt \<Longrightarrow> date_le (prev_day dt) dt"
  by (auto simp: prev_day_def date_le_def valid_datetime_def)

lemma date_le_sub_days:
  "valid_datetime dt \<Longrightarrow> sub_days dt k = Inr r \<Longrightarrow> date_le r dt"
proof (induction k arbitrary: dt)
  case 0
  then show ?case by (simp add: date_le_refl)
next
  case (Suc k)
  from Suc.prems(2) have ne: "\<not> (year dt \<le> 1 \<and> month dt \<le> 1 \<and> day dt \<le> 1)"
    and r: "sub_days (prev_day dt) k = Inr r"
    by (auto split: if_splits)
  have "valid_datetime (prev_day dt)" using valid_prev_day Suc.prems(1) ne by blast
  from Suc.IH[OF this r] date_le_prev_day[OF Suc.prems(1)] show ?case
    by (rule date_le_trans)
qed

lemma sum_where_mono:
  assumes "\<And>d. d \<in> set ds \<Longrightarrow> 0 \<le> amount_of d" and "\<And>d. d \<in> set ds \<Longrightarrow> P d \<Longrightarrow> Q d"
  shows "sum_where P ds \<le> sum_where Q ds"
  using assms
proof (induction ds)
  case Nil
  then show ?case by simp
next
  case (Cons d ds)
  have ih: "sum_where P ds \<le> sum_where Q ds" using Cons by simp
  have "0 \<le> amount_of d" "P d \<Longrightarrow> Q d" using Cons.prems by simp_all
  with ih show ?case by (auto simp: sum_where_def)
qed

lemma today_in_week:
  assumes "valid_datetime now" "sub_days now (weekday now) = Inr ws" "valid_datetime ws"
  shows "strftime_ymd ws \<le> strftime_ymd now"
  using date_le_sub_days[OF assms(1,2)] valid_datetime_bounds[OF assms(1)]
    valid_datetime_bounds[OF assms(3)]
  by (simp add: strftime_ymd_le_iff)

lemma month_start_le:
  assumes "valid_datetime now" "in_current_month now s"
  shows "strftime_ymd (now\<lparr>day := 1\<rparr>) \<le> s"
proof -
  from assms(2) obtain k where k: "1 \<le> k" "k \<le> days_in_month (year now) (month now)"
    and s: "s = strftime_ymd (now\<lparr>day := k\<rparr>)"
    by (auto simp: in_current_month_def)
  have "days_in_month (year now) (month now) \<le> 31" by (simp add: days_in_month_def)
  with k have "k < 100" by simp
  then have "strftime_ymd (now\<lparr>day := 1\<rparr>) \<le> strftime_ymd (now\<lparr>day := k\<rparr>)
      \<longleftrightarrow> date_le (now\<lparr>day := 1\<rparr>) (now\<lparr>day := k\<rparr>)"
    using valid_datetime_bounds[OF assms(1)] by (intro strftime_ymd_le_iff) simp_all
  with k s show ?thesis by (simp add: date_le_def)
qed

lemma in_current_month_ex: "in_current_month now_ex ''2024-05-15''"
  unfolding in_current_month_def
proof (rule bexI[of _ 15])
  show "''2024-05-15'' = strftime_ymd (now_ex\<lparr>day := 15\<rparr>)"
    by (simp add: strftime_ymd_def pad4_def pad2_def digit_def now_ex_def)
  show "15 \<in> {1..days_in_month (year now_ex) (month now_ex)}"
    by (simp add: now_ex_def days_in_month_def)
qed

lemma amounts_ex_nonneg: "\<forall>e\<in>set (expenses store_ex). 0 \<le> amount_of e"
  by (simp add: store_ex_def expenses_ex_def expense_doc_def amount_of_def)

lemma week_in_month_ex:
  "\<forall>e\<in>set (expenses store_ex). \<forall>s.
     e ''date'' = Some (Str s) \<and> strftime_ymd (now_ex\<lparr>day := 13\<rparr>) \<le> s
       \<longrightarrow> in_current_month now_ex s"
  using in_current_month_ex
  by (auto simp: store_ex_def expenses_ex_def expense_doc_def strftime_ex)

lemma filter_date_matches_has_date:
  "filter (date_matches P) (filter has_date xs) = filter (date_matches P) xs"
  by (induction xs) (auto simp: date_matches_def has_date_def)

lemma sum_where_has_date:
  "sum_where (date_matches P) (filter has_date xs) = sum_where (date_matches P) xs"
  by (simp only: sum_where_def filter_date_matches_has_date)

lemma get_summary_returns_lenient:
  assumes "lenient_store db" "valid_datetime now"
  shows "\<exists>ws. sub_days now (weekday now) = Inr ws
           \<and> get_summary db now =
               Inr (summary_of db (strftime_ymd now) (strftime_ymd ws)
                      (strftime_ymd (now\<lparr>day := 1\<rparr>)))"
proof -
  from week_start_ok[OF assms(2)] obtain ws where ws: "sub_days now (weekday now) = Inr ws"
    by blast
  from get_summary_closed[OF assms(1) ws] ws show ?thesis by blast
qed

lemma malformed_fields:
  "undated_expense ''date'' = None"
  "undated_expense ''amount'' = Some (Num 20)"
  "malformed_expense ''date'' = Some (Str ''abc'')"
  "malformed_expense ''amount'' = Some (Num 10)"
  by (simp_all add: undated_expense_def malformed_expense_def expense_doc_def)

lemma lenient_store_malformed_ex: "lenient_store store_malformed_ex"
  by (simp add: lenient_store_def store_malformed_ex_def lenient_expense_def malformed_fields
      is_num_def is_str_def debts_ex_def debt_doc_def wf_limits_def find_one_def)

lemma summary_of_malformed_ex:
  "summary_of store_malformed_ex ''2024-05-15'' ''2024-05-13'' ''2024-05-01'' = summary_malformed_ex"
  by (simp add: summary_of_def summary_malformed_ex_def store_malformed_ex_def debts_ex_def
      debt_doc_def limit_of_def find_one_def date_matches_def pending_of_def amount_of_def
      warning_of_def Let_def malformed_fields)

lemma get_summary_malformed_ex: "get_summary store_malformed_ex now_ex = Inr summary_malformed_ex"
  using get_summary_closed[OF lenient_store_malformed_ex week_start_ex]
  by (simp add: strftime_ex summary_of_malformed_ex)

lemma get_summary_backend_malformed_ex:
  "get_summary_backend store_malformed_ex now_ex = Inl (KeyError ''date'')"
  by (simp add: get_summary_backend_def Let_def week_start_ex to_list_def store_malformed_ex_def
      dict_index_def malformed_fields)

lemma has_date_malformed_ex:
  "filter has_date (take 10000 (expenses store_malformed_ex)) = [malformed_expense]"
  by (simp add: store_malformed_ex_def has_date_def malformed_fields)

lemma abc_ge: "''2024-05-13'' \<le> ''abc''" "''2024-05-01'' \<le> ''abc''" "''abc'' \<noteq> ''2024-05-15''"
  by simp_all

lemma wf_store_abc_ex: "wf_store store_abc_ex"
  by (simp add: wf_store_def store_abc_ex_def wf_expense_def wf_debt_def malformed_fields
      is_num_def is_str_def debts_ex_def debt_doc_def wf_limits_def find_one_def)

lemma summary_of_abc_ex:
  "summary_of store_abc_ex ''2024-05-15'' ''2024-05-13'' ''2024-05-01'' = summary_malformed_ex"
  by (simp add: summary_of_def summary_malformed_ex_def store_abc_ex_def debts_ex_def
      debt_doc_def limit_of_def find_one_def date_matches_def pending_of_def amount_of_def
      warning_of_def Let_def malformed_fields)

lemma get_summary_abc_ex: "get_summary store_abc_ex now_ex = Inr summary_malformed_ex"
  using get_summary_closed[OF wf_store_lenient[OF wf_store_abc_ex] week_start_ex]
  by (simp add: strftime_ex summary_of_abc_ex)

lemma get_summary_backend_abc_ex:
  "get_summary_backend store_abc_ex now_ex = Inr summary_malformed_ex"
  using get_summary_backend_closed[OF wf_store_abc_ex week_start_ex]
  by (simp add: strftime_ex summary_of_abc_ex)

lemma expenses_abc_ex: "expenses store_abc_ex = [malformed_expense]"
  by (simp add: store_abc_ex_def)

lemma totals_malformed_ex:
  "total_today summary_malformed_ex = 0"
  "total_week summary_malformed_ex = 10"
  "total_month summary_malformed_ex = 10"
  by (simp_all add: summary_malformed_ex_def)

section \<open>The claims\<close>

text \<open>
  C1: for every spent amount and every limit, the warning block of \<open>get_summary\<close>
  computes the classifier of the specification: \<open>none\<close> when the limit is \<open>\<le> 0\<close>;
  otherwise, with \<open>percent = (spent / limit) * 100\<close>, \<open>red\<close> when
  \<open>percent \<ge> 100\<close>, \<open>yellow\<close> when \<open>80 \<le> percent < 100\<close> and \<open>none\<close> when
  \<open>percent < 80\<close>. Every summary returned by either server carries this classification
  of the pair (total_week, weekly_limit) and, independently, of the pair
  (total_month, monthly_limit).
\<close>

theorem C1_warning_classifier:
  "warning_of S L = classify S L
   \<and> (get_summary db now = Inr r \<longrightarrow>
        weekly_warning r = classify (total_week r) (weekly_limit r)
        \<and> monthly_warning r = classify (total_month r) (monthly_limit r))
   \<and> (get_summary_backend db now = Inr r' \<longrightarrow>
        weekly_warning r' = classify (total_week r') (weekly_limit r')
        \<and> monthly_warning r' = classify (total_month r') (monthly_limit r'))"
  using get_summary_shape(3,4)[of db now r] get_summary_backend_shape(3,4)[of db now r']
  by (simp add: warning_of_classify)

theorem C1_warning_classifier_witness:
  "warning_of 48 60 = ''yellow'' \<and> warning_of 60 60 = ''red'' \<and> warning_of 47 60 = ''none''
   \<and> warning_of 47 0 = ''none''
   \<and> get_summary store_ex now_ex = Inr summary_ex
   \<and> get_summary_backend store_ex now_ex = Inr summary_ex
   \<and> weekly_warning summary_ex = classify (total_week summary_ex) (weekly_limit summary_ex)
   \<and> monthly_warning summary_ex = classify (total_month summary_ex) (monthly_limit summary_ex)"
  using C1_warning_classifier[of 48 60 store_ex now_ex summary_ex summary_ex]
    C1_warning_classifier[of 60 60 store_ex now_ex summary_ex summary_ex]
    C1_warning_classifier[of 47 60 store_ex now_ex summary_ex summary_ex]
    C1_warning_classifier[of 47 0 store_ex now_ex summary_ex summary_ex]
  by (simp add: get_summary_ex get_summary_backend_ex classify_def)

text \<open>
  C5: when the store holds no limit settings record, every summary returned by
  \<open>get_summary\<close> (either server) has \<open>weekly_limit = 0\<close>, \<open>monthly_limit = 0\<close>,
  \<open>weekly_warning = none\<close> and \<open>monthly_warning = none\<close>, whatever the totals are;
  and on a store of well-formed documents both servers do return a summary.
\<close>

theorem C5_no_limit_record:
  assumes "find_one (q_id ''limit_settings'') (limits db) = None"
  shows "(get_summary db now = Inr r \<longrightarrow>
            weekly_limit r = 0 \<and> monthly_limit r = 0
            \<and> weekly_warning r = ''none'' \<and> monthly_warning r = ''none'')
         \<and> (get_summary_backend db now = Inr r' \<longrightarrow>
            weekly_limit r' = 0 \<and> monthly_limit r' = 0
            \<and> weekly_warning r' = ''none'' \<and> monthly_warning r' = ''none'')
         \<and> (list_all wf_expense (expenses db) \<and> list_all wf_debt (debts db) \<and> valid_datetime now
            \<longrightarrow> (\<exists>s. get_summary db now = Inr s \<and> get_summary_backend db now = Inr s))"
proof (intro conjI impI)
  assume a: "get_summary db now = Inr r"
  show "weekly_limit r = 0" "monthly_limit r = 0"
    using get_summary_limits_absent[OF assms a] by simp_all
  then show "weekly_warning r = ''none''" "monthly_warning r = ''none''"
    using get_summary_shape(3,4)[OF a] by (simp_all add: warning_of_nonpos)
next
  assume a: "get_summary_backend db now = Inr r'"
  show "weekly_limit r' = 0" "monthly_limit r' = 0"
    using get_summary_backend_limits_absent[OF assms a] by simp_all
  then show "weekly_warning r' = ''none''" "monthly_warning r' = ''none''"
    using get_summary_backend_shape(3,4)[OF a] by (simp_all add: warning_of_nonpos)
next
  assume "list_all wf_expense (expenses db) \<and> list_all wf_debt (debts db) \<and> valid_datetime now"
  then have "wf_store db" "valid_datetime now"
    using no_limits_wf[OF assms] by (simp_all add: wf_store_def)
  from get_summary_returns[OF this]
  show "\<exists>s. get_summary db now = Inr s \<and> get_summary_backend db now = Inr s"
    by blast
qed

theorem C5_no_limit_record_witness:
  "find_one (q_id ''limit_settings'') (limits store_nolimit_ex) = None
   \<and> get_summary store_nolimit_ex now_ex = Inr summary_nolimit_ex
   \<and> get_summary_backend store_nolimit_ex now_ex = Inr summary_nolimit_ex
   \<and> total_week summary_nolimit_ex = 131 / 2
   \<and> weekly_limit summary_nolimit_ex = 0 \<and> monthly_limit summary_nolimit_ex = 0
   \<and> weekly_warning summary_nolimit_ex = ''none''
   \<and> monthly_warning summary_nolimit_ex = ''none''"
  using C5_no_limit_record[of store_nolimit_ex now_ex summary_nolimit_ex summary_nolimit_ex]
  by (simp add: get_summary_nolimit_ex get_summary_backend_nolimit_ex no_limit_ex
      summary_nolimit_ex_def)

text \<open>
  C6: every summary returned by \<open>get_summary\<close> (either server) satisfies
  \<open>remaining_week = weekly_limit - total_week\<close> and
  \<open>remaining_month = monthly_limit - total_month\<close> exactly, with no clamping: the
  difference is returned also when it is negative. On a store of well-formed documents
  both servers do return a summary.
\<close>

theorem C6_remaining:
  "(get_summary db now = Inr r \<longrightarrow>
      remaining_week r = weekly_limit r - total_week r
      \<and> remaining_month r = monthly_limit r - total_month r)
   \<and> (get_summary_backend db now = Inr r' \<longrightarrow>
      remaining_week r' = weekly_limit r' - total_week r'
      \<and> remaining_month r' = monthly_limit r' - total_month r')
   \<and> (wf_store db \<and> valid_datetime now \<longrightarrow>
      (\<exists>s. get_summary db now = Inr s \<and> get_summary_backend db now = Inr s))"
proof (intro conjI impI)
  assume "wf_store db \<and> valid_datetime now"
  then have "wf_store db" "valid_datetime now" by simp_all
  from get_summary_returns[OF this]
  show "\<exists>s. get_summary db now = Inr s \<and> get_summary_backend db now = Inr s"
    by blast
qed (simp_all add: get_summary_shape get_summary_backend_shape)

theorem C6_remaining_witness:
  "get_summary store_ex now_ex = Inr summary_ex
   \<and> get_summary_backend store_ex now_ex = Inr summary_ex
   \<and> wf_store store_ex \<and> valid_datetime now_ex
   \<and> weekly_limit summary_ex = 60 \<and> total_week summary_ex = 131 / 2
   \<and> remaining_week summary_ex = weekly_limit summary_ex - total_week summary_ex
   \<and> remaining_month summary_ex = monthly_limit summary_ex - total_month summary_ex
   \<and> remaining_week summary_ex < 0"
  using C6_remaining[of store_ex now_ex summary_ex summary_ex]
  by (simp add: get_summary_ex get_summary_backend_ex wf_store_ex valid_now_ex summary_ex_def)

text \<open>
  C10: \<open>get_summary\<close> (either server) reads at most 10000 expense documents and at most
  10000 debt documents. On a store of well-formed documents the summary it returns has
  \<open>total_today\<close>, \<open>total_week\<close> and \<open>total_month\<close> equal to the sums over the first
  10000 expenses in store order, and \<open>money_gave\<close> and \<open>money_owe\<close> equal to the sums
  over the first 10000 debts; records beyond these are omitted without any error. On
  every store the result is the result on the store cut down to its first 10000
  expenses and first 10000 debts.
\<close>

theorem C10_cap:
  "(wf_store db \<and> valid_datetime now \<longrightarrow>
      (\<exists>ws r. sub_days now (weekday now) = Inr ws
         \<and> get_summary db now = Inr r \<and> get_summary_backend db now = Inr r
         \<and> total_today r =
             sum_where (date_matches (\<lambda>s. s = strftime_ymd now)) (take 10000 (expenses db))
         \<and> total_week r =
             sum_where (date_matches (\<lambda>s. strftime_ymd ws \<le> s)) (take 10000 (expenses db))
         \<and> total_month r =
             sum_where (date_matches (\<lambda>s. strftime_ymd (now\<lparr>day := 1\<rparr>) \<le> s))
               (take 10000 (expenses db))
         \<and> money_gave r = sum_where (pending_of ''gave'') (take 10000 (debts db))
         \<and> money_owe r = sum_where (pending_of ''owe'') (take 10000 (debts db))))
   \<and> get_summary db now =
     get_summary (db\<lparr>expenses := take 10000 (expenses db), debts := take 10000 (debts db)\<rparr>) now
   \<and> get_summary_backend db now =
     get_summary_backend
       (db\<lparr>expenses := take 10000 (expenses db), debts := take 10000 (debts db)\<rparr>) now"
proof (intro conjI impI)
  assume "wf_store db \<and> valid_datetime now"
  then have "wf_store db" "valid_datetime now" by simp_all
  from get_summary_returns[OF this]
  show "\<exists>ws r. sub_days now (weekday now) = Inr ws
         \<and> get_summary db now = Inr r \<and> get_summary_backend db now = Inr r
         \<and> total_today r =
             sum_where (date_matches (\<lambda>s. s = strftime_ymd now)) (take 10000 (expenses db))
         \<and> total_week r =
             sum_where (date_matches (\<lambda>s. strftime_ymd ws \<le> s)) (take 10000 (expenses db))
         \<and> total_month r =
             sum_where (date_matches (\<lambda>s. strftime_ymd (now\<lparr>day := 1\<rparr>) \<le> s))
               (take 10000 (expenses db))
         \<and> money_gave r = sum_where (pending_of ''gave'') (take 10000 (debts db))
         \<and> money_owe r = sum_where (pending_of ''owe'') (take 10000 (debts db))"
    by (auto simp: summary_of_fields)
next
  show "get_summary db now =
     get_summary (db\<lparr>expenses := take 10000 (expenses db), debts := take 10000 (debts db)\<rparr>) now"
    by (rule get_summary_truncate)
next
  show "get_summary_backend db now =
     get_summary_backend
       (db\<lparr>expenses := take 10000 (expenses db), debts := take 10000 (debts db)\<rparr>) now"
    by (rule get_summary_backend_truncate)
qed

theorem C10_cap_witness:
  "wf_store store_big_ex \<and> valid_datetime now_ex
   \<and> length (expenses store_big_ex) = 10001 \<and> length (debts store_big_ex) = 10001
   \<and> get_summary store_big_ex now_ex = Inr summary_big_ex
   \<and> get_summary_backend store_big_ex now_ex = Inr summary_big_ex
   \<and> total_today summary_big_ex =
       sum_where (date_matches (\<lambda>s. s = strftime_ymd now_ex)) (take 10000 (expenses store_big_ex))
   \<and> total_week summary_big_ex =
       sum_where (date_matches (\<lambda>s. strftime_ymd (now_ex\<lparr>day := 13\<rparr>) \<le> s))
         (take 10000 (expenses store_big_ex))
   \<and> total_month summary_big_ex =
       sum_where (date_matches (\<lambda>s. strftime_ymd (now_ex\<lparr>day := 1\<rparr>) \<le> s))
         (take 10000 (expenses store_big_ex))
   \<and> money_gave summary_big_ex = sum_where (pending_of ''gave'') (take 10000 (debts store_big_ex))
   \<and> money_owe summary_big_ex = sum_where (pending_of ''owe'') (take 10000 (debts store_big_ex))
   \<and> total_today summary_big_ex = 0 \<and> total_week summary_big_ex = 0
   \<and> total_month summary_big_ex = 0 \<and> money_gave summary_big_ex = 0
   \<and> sum_where (date_matches ((=) ''2024-05-15'')) (expenses store_big_ex) = 50
   \<and> sum_where (pending_of ''gave'') (debts store_big_ex) = 100"
  using C10_cap[of store_big_ex now_ex]
  by (auto simp: wf_store_big_ex valid_now_ex length_big_ex get_summary_big_ex
      get_summary_backend_big_ex week_start_ex big_expenses_sum big_debts_sum summary_big_ex_def)

text \<open>
  C2 (amended): on a store of well-formed documents and at every instant \<open>now\<close>, both
  servers return a summary in which, over the first 10000 expenses the store returns,
  \<open>total_today\<close> is the sum of the amounts of the expenses whose date string equals
  today's date, \<open>total_week\<close> the sum over those whose date string is \<open>\<ge>\<close> the date of
  the Monday of the current week (\<open>now\<close> minus weekday-index days, Monday = 0), and
  \<open>total_month\<close> the sum over those whose date string is \<open>\<ge>\<close> the first day of the
  current month, date strings being compared lexicographically.
\<close>

theorem C2_totals:
  assumes "wf_store db" and "valid_datetime now"
  shows "\<exists>ws r. sub_days now (weekday now) = Inr ws \<and> weekday ws = 0
           \<and> toordinal ws + weekday now = toordinal now
           \<and> get_summary db now = Inr r \<and> get_summary_backend db now = Inr r
           \<and> total_today r =
               sum_where (date_matches (\<lambda>s. s = strftime_ymd now)) (take 10000 (expenses db))
           \<and> total_week r =
               sum_where (date_matches (\<lambda>s. strftime_ymd ws \<le> s)) (take 10000 (expenses db))
           \<and> total_month r =
               sum_where (date_matches (\<lambda>s. strftime_ymd (now\<lparr>day := 1\<rparr>) \<le> s))
                 (take 10000 (expenses db))"
  using get_summary_returns[OF assms] by (auto simp: summary_of_fields)

theorem C2_totals_witness:
  "wf_store store_ex \<and> valid_datetime now_ex
   \<and> (\<exists>ws r. sub_days now_ex (weekday now_ex) = Inr ws \<and> weekday ws = 0
           \<and> toordinal ws + weekday now_ex = toordinal now_ex
           \<and> get_summary store_ex now_ex = Inr r \<and> get_summary_backend store_ex now_ex = Inr r
           \<and> total_today r =
               sum_where (date_matches (\<lambda>s. s = strftime_ymd now_ex)) (take 10000 (expenses store_ex))
           \<and> total_week r =
               sum_where (date_matches (\<lambda>s. strftime_ymd ws \<le> s)) (take 10000 (expenses store_ex))
           \<and> total_month r =
               sum_where (date_matches (\<lambda>s. strftime_ymd (now_ex\<lparr>day := 1\<rparr>) \<le> s))
                 (take 10000 (expenses store_ex)))"
  using C2_totals[of store_ex now_ex] wf_store_ex valid_now_ex by simp

theorem C2_counterexample:
  "wf_store store_big_ex \<and> valid_datetime now_ex
   \<and> strftime_ymd now_ex = ''2024-05-15''
   \<and> sub_days now_ex (weekday now_ex) = Inr (now_ex\<lparr>day := 13\<rparr>)
   \<and> strftime_ymd (now_ex\<lparr>day := 13\<rparr>) = ''2024-05-13''
   \<and> strftime_ymd (now_ex\<lparr>day := 1\<rparr>) = ''2024-05-01''
   \<and> get_summary store_big_ex now_ex = Inr summary_big_ex
   \<and> get_summary_backend store_big_ex now_ex = Inr summary_big_ex
   \<and> total_today summary_big_ex = 0
   \<and> sum_where (date_matches ((=) ''2024-05-15'')) (expenses store_big_ex) = 50
   \<and> total_week summary_big_ex = 0
   \<and> sum_where (date_matches ((\<le>) ''2024-05-13'')) (expenses store_big_ex) = 50
   \<and> total_month summary_big_ex = 0
   \<and> sum_where (date_matches ((\<le>) ''2024-05-01'')) (expenses store_big_ex) = 50"
  by (simp add: wf_store_big_ex valid_now_ex strftime_ex week_start_ex get_summary_big_ex
      get_summary_backend_big_ex big_expenses_sum summary_big_ex_def)

text \<open>
  C4 (amended): on a store of well-formed documents both servers return a summary in
  which, over the first 10000 debts the store returns, \<open>money_gave\<close> is the sum of the
  amounts of the debts with \<open>debt_type = gave\<close> and \<open>status = pending\<close>, and
  \<open>money_owe\<close> the sum over those with \<open>debt_type = owe\<close> and \<open>status = pending\<close>.
  Paid debts contribute nothing: after flipping every status to \<open>paid\<close> both are 0.
  No time window applies: the two sums are the same at every instant.
\<close>

theorem C4_debts:
  assumes "wf_store db" and "valid_datetime now"
  shows "\<exists>r p. get_summary db now = Inr r \<and> get_summary_backend db now = Inr r
           \<and> money_gave r = sum_where (pending_of ''gave'') (take 10000 (debts db))
           \<and> money_owe r = sum_where (pending_of ''owe'') (take 10000 (debts db))
           \<and> get_summary (db\<lparr>debts := map mark_paid (debts db)\<rparr>) now = Inr p
           \<and> get_summary_backend (db\<lparr>debts := map mark_paid (debts db)\<rparr>) now = Inr p
           \<and> money_gave p = 0 \<and> money_owe p = 0
           \<and> (\<forall>now'. valid_datetime now' \<longrightarrow>
                (\<exists>r'. get_summary db now' = Inr r' \<and> get_summary_backend db now' = Inr r'
                   \<and> money_gave r' = money_gave r \<and> money_owe r' = money_owe r))"
proof -
  from get_summary_returns[OF assms] obtain r where
    r: "get_summary db now = Inr r" "get_summary_backend db now = Inr r"
      "money_gave r = sum_where (pending_of ''gave'') (take 10000 (debts db))"
      "money_owe r = sum_where (pending_of ''owe'') (take 10000 (debts db))"
    by (auto simp: summary_of_fields)
  from get_summary_returns[OF wf_store_mark_paid[OF assms(1)] assms(2)] obtain p where
    p: "get_summary (db\<lparr>debts := map mark_paid (debts db)\<rparr>) now = Inr p"
      "get_summary_backend (db\<lparr>debts := map mark_paid (debts db)\<rparr>) now = Inr p"
      "money_gave p = 0" "money_owe p = 0"
    by (auto simp: summary_of_fields sum_where_mark_paid)
  have "\<exists>r'. get_summary db now' = Inr r' \<and> get_summary_backend db now' = Inr r'
          \<and> money_gave r' = money_gave r \<and> money_owe r' = money_owe r"
    if "valid_datetime now'" for now'
    using get_summary_returns[OF assms(1) that] r(3,4) by (auto simp: summary_of_fields)
  with r p show ?thesis by blast
qed

theorem C4_debts_witness:
  "wf_store store_ex \<and> valid_datetime now_ex
   \<and> get_summary store_ex now_ex = Inr summary_ex
   \<and> money_gave summary_ex = 100 \<and> money_owe summary_ex = 50
   \<and> (\<exists>p. get_summary (store_ex\<lparr>debts := map mark_paid (debts store_ex)\<rparr>) now_ex = Inr p
          \<and> get_summary_backend (store_ex\<lparr>debts := map mark_paid (debts store_ex)\<rparr>) now_ex = Inr p
          \<and> money_gave p = 0 \<and> money_owe p = 0)
   \<and> money_gave summary_ex = sum_where (pending_of ''gave'') (take 10000 (debts store_ex))
   \<and> money_owe summary_ex = sum_where (pending_of ''owe'') (take 10000 (debts store_ex))"
  using C4_debts[OF wf_store_ex valid_now_ex]
  by (auto simp: get_summary_ex wf_store_ex valid_now_ex summary_ex_def)

theorem C4_counterexample:
  "wf_store store_big_ex \<and> valid_datetime now_ex
   \<and> get_summary store_big_ex now_ex = Inr summary_big_ex
   \<and> get_summary_backend store_big_ex now_ex = Inr summary_big_ex
   \<and> money_gave summary_big_ex = 0
   \<and> sum_where (pending_of ''gave'') (debts store_big_ex) = 100"
  by (simp add: wf_store_big_ex valid_now_ex get_summary_big_ex get_summary_backend_big_ex
      big_debts_sum summary_big_ex_def)

text \<open>
  C9: \<open>update_expense\<close> sets only title, amount, date and category: with these four
  fields erased, the stored expenses after the call are the stored expenses before it,
  document by document, so that the id and the timestamp of every expense are
  unchanged; debts and limits are untouched. The expense the call is on (the first with
  the given id) is replaced by a document with the four fields of the input and its old
  id and timestamp. \<open>update_debt\<close> sets only status: with the status erased, the stored
  debts after the call are the stored debts before it, so that every other field,
  \<open>debt_type\<close> in particular, is unchanged; expenses and limits are untouched. The debt
  the call is on is replaced by a document with the new status and its old
  \<open>debt_type\<close> and id.
\<close>

theorem C9_update_frame:
  "map (erase_fields expense_fields) (expenses (snd (update_expense fromiso db expense_id inp)))
     = map (erase_fields expense_fields) (expenses db)
   \<and> map (\<lambda>d. d ''id'') (expenses (snd (update_expense fromiso db expense_id inp)))
     = map (\<lambda>d. d ''id'') (expenses db)
   \<and> map (\<lambda>d. d ''timestamp'') (expenses (snd (update_expense fromiso db expense_id inp)))
     = map (\<lambda>d. d ''timestamp'') (expenses db)
   \<and> debts (snd (update_expense fromiso db expense_id inp)) = debts db
   \<and> limits (snd (update_expense fromiso db expense_id inp)) = limits db
   \<and> map (erase_fields [''status'']) (debts (snd (update_debt fromiso db debt_id upd)))
     = map (erase_fields [''status'']) (debts db)
   \<and> map (\<lambda>d. d ''debt_type'') (debts (snd (update_debt fromiso db debt_id upd)))
     = map (\<lambda>d. d ''debt_type'') (debts db)
   \<and> map (\<lambda>d. d ''id'') (debts (snd (update_debt fromiso db debt_id upd)))
     = map (\<lambda>d. d ''id'') (debts db)
   \<and> expenses (snd (update_debt fromiso db debt_id upd)) = expenses db
   \<and> limits (snd (update_debt fromiso db debt_id upd)) = limits db
   \<and> (i < length (expenses db) \<and> q_id expense_id (expenses db ! i)
        \<and> (\<forall>j<i. \<not> q_id expense_id (expenses db ! j)) \<longrightarrow>
       (\<exists>d'. expenses (snd (update_expense fromiso db expense_id inp)) = (expenses db)[i := d']
          \<and> d' ''title'' = Some (Str (ec_title inp))
          \<and> d' ''amount'' = Some (Num (ec_amount inp))
          \<and> d' ''date'' = Some (Str (ec_date inp))
          \<and> d' ''category'' = Some (Str (ec_category inp))
          \<and> d' ''id'' = Some (Str expense_id)
          \<and> d' ''timestamp'' = (expenses db ! i) ''timestamp''))
   \<and> (k < length (debts db) \<and> q_id debt_id (debts db ! k)
        \<and> (\<forall>j<k. \<not> q_id debt_id (debts db ! j)) \<longrightarrow>
       (\<exists>d'. debts (snd (update_debt fromiso db debt_id upd)) = (debts db)[k := d']
          \<and> d' ''status'' = Some (Str (du_status upd))
          \<and> d' ''debt_type'' = (debts db ! k) ''debt_type''
          \<and> d' ''id'' = Some (Str debt_id)))"
proof (intro conjI impI)
  note e = update_expense_frame[of fromiso db expense_id inp]
  note d = update_debt_frame[of fromiso db debt_id upd]
  show "map (erase_fields expense_fields) (expenses (snd (update_expense fromiso db expense_id inp)))
     = map (erase_fields expense_fields) (expenses db)" by (rule e)
  show "map (\<lambda>d. d ''id'') (expenses (snd (update_expense fromiso db expense_id inp)))
     = map (\<lambda>d. d ''id'') (expenses db)"
    by (rule map_field_of_erase[OF e]) (simp add: expense_fields_def)
  show "map (\<lambda>d. d ''timestamp'') (expenses (snd (update_expense fromiso db expense_id inp)))
     = map (\<lambda>d. d ''timestamp'') (expenses db)"
    by (rule map_field_of_erase[OF e]) (simp add: expense_fields_def)
  show "map (erase_fields [''status'']) (debts (snd (update_debt fromiso db debt_id upd)))
     = map (erase_fields [''status'']) (debts db)" by (rule d)
  show "map (\<lambda>d. d ''debt_type'') (debts (snd (update_debt fromiso db debt_id upd)))
     = map (\<lambda>d. d ''debt_type'') (debts db)"
    by (rule map_field_of_erase[OF d]) simp
  show "map (\<lambda>d. d ''id'') (debts (snd (update_debt fromiso db debt_id upd)))
     = map (\<lambda>d. d ''id'') (debts db)"
    by (rule map_field_of_erase[OF d]) simp
  show "debts (snd (update_expense fromiso db expense_id inp)) = debts db"
    by (simp add: update_expense_store)
  show "limits (snd (update_expense fromiso db expense_id inp)) = limits db"
    by (simp add: update_expense_store)
  show "expenses (snd (update_debt fromiso db debt_id upd)) = expenses db"
    by (simp add: update_debt_store)
  show "limits (snd (update_debt fromiso db debt_id upd)) = limits db"
    by (simp add: update_debt_store)
next
  assume a: "i < length (expenses db) \<and> q_id expense_id (expenses db ! i)
        \<and> (\<forall>j<i. \<not> q_id expense_id (expenses db ! j))"
  then have "expenses (snd (update_expense fromiso db expense_id inp)) =
           (expenses db)[i := set_fields (model_dump inp) (expenses db ! i)]"
    using update_expense_effect[of i db expense_id fromiso inp] by simp
  moreover have "(expenses db ! i) ''id'' = Some (Str expense_id)"
    using a by (simp add: q_id_def)
  ultimately show "\<exists>d'. expenses (snd (update_expense fromiso db expense_id inp)) = (expenses db)[i := d']
          \<and> d' ''title'' = Some (Str (ec_title inp))
          \<and> d' ''amount'' = Some (Num (ec_amount inp))
          \<and> d' ''date'' = Some (Str (ec_date inp))
          \<and> d' ''category'' = Some (Str (ec_category inp))
          \<and> d' ''id'' = Some (Str expense_id)
          \<and> d' ''timestamp'' = (expenses db ! i) ''timestamp''"
    by (intro exI[of _ "set_fields (model_dump inp) (expenses db ! i)"])
      (simp add: set_fields_model_dump)
next
  assume a: "k < length (debts db) \<and> q_id debt_id (debts db ! k)
        \<and> (\<forall>j<k. \<not> q_id debt_id (debts db ! j))"
  then have "debts (snd (update_debt fromiso db debt_id upd)) =
           (debts db)[k := set_fields [(''status'', Str (du_status upd))] (debts db ! k)]"
    using update_debt_effect[of k db debt_id fromiso upd] by simp
  moreover have "(debts db ! k) ''id'' = Some (Str debt_id)"
    using a by (simp add: q_id_def)
  ultimately show "\<exists>d'. debts (snd (update_debt fromiso db debt_id upd)) = (debts db)[k := d']
          \<and> d' ''status'' = Some (Str (du_status upd))
          \<and> d' ''debt_type'' = (debts db ! k) ''debt_type''
          \<and> d' ''id'' = Some (Str debt_id)"
    by (intro exI[of _ "set_fields [(''status'', Str (du_status upd))] (debts db ! k)"])
      (simp add: set_fields_status)
qed

theorem C9_update_frame_witness:
  "1 < length (expenses store_ex) \<and> q_id ''e2'' (expenses store_ex ! 1)
   \<and> \<not> q_id ''e2'' (expenses store_ex ! 0)
   \<and> (\<exists>d'. expenses (snd (update_expense fromiso_ex store_ex ''e2'' expense_update_ex))
              = (expenses store_ex)[1 := d']
          \<and> d' ''title'' = Some (Str ''Taxi'') \<and> d' ''amount'' = Some (Num 20)
          \<and> d' ''date'' = Some (Str ''2024-05-14'') \<and> d' ''category'' = Some (Str ''Travel'')
          \<and> d' ''id'' = Some (Str ''e2'') \<and> d' ''timestamp'' = Some (Stamp now_ex))
   \<and> 0 < length (debts store_ex) \<and> q_id ''d1'' (debts store_ex ! 0)
   \<and> (\<exists>d'. debts (snd (update_debt fromiso_ex store_ex ''d1'' debt_update_ex))
              = (debts store_ex)[0 := d']
          \<and> d' ''status'' = Some (Str ''paid'') \<and> d' ''debt_type'' = Some (Str ''gave'')
          \<and> d' ''id'' = Some (Str ''d1''))
   \<and> map (\<lambda>d. d ''id'') (expenses (snd (update_expense fromiso_ex store_ex ''e2'' expense_update_ex)))
       = map (\<lambda>d. d ''id'') (expenses store_ex)"
  using C9_update_frame[where db = store_ex and fromiso = fromiso_ex and expense_id = "''e2''"
      and inp = expense_update_ex and i = 1 and debt_id = "''d1''" and upd = debt_update_ex
      and k = 0]
  by (simp add: store_ex_nth store_ex_nth_Suc doc_ex_fields q_id_def expense_update_ex_def debt_update_ex_def)

text \<open>
  C8: the two servers disagree on the \<open>day\<close> filter of \<open>get_expenses\<close>. On a store
  holding one expense dated today and one dated tomorrow, \<open>src/server.py\<close> (date
  \<open>\<ge>\<close> and \<open>\<le>\<close> today's string, that is, equal to it) returns the expense of today
  only, while \<open>src/backend/server.py\<close> (date \<open>\<ge>\<close> start of day) returns both: the
  expense dated tomorrow is in one result and not in the other.
\<close>

theorem C8_day_filter_disagrees:
  "get_expenses fromiso store_day_ex now_ex (Some ''day'') = Inr [project_id today_expense]
   \<and> get_expenses_backend fromiso store_day_ex now_ex (Some ''day'')
       = Inr [project_id tomorrow_expense, project_id today_expense]
   \<and> project_id tomorrow_expense \<notin> set [project_id today_expense]
   \<and> (\<exists>db now xs ys. wf_store db \<and> valid_datetime now
         \<and> get_expenses fromiso db now (Some ''day'') = Inr xs
         \<and> get_expenses_backend fromiso db now (Some ''day'') = Inr ys
         \<and> set xs \<noteq> set ys)
   \<and> q_date_gte_lte (strftime_ymd (midnight now)) (strftime_ymd (midnight now)) d
       = (d ''date'' = Some (Str (strftime_ymd now)))"
proof (intro conjI)
  show a: "get_expenses fromiso store_day_ex now_ex (Some ''day'') = Inr [project_id today_expense]"
    by (rule get_expenses_day_ex)
  show b: "get_expenses_backend fromiso store_day_ex now_ex (Some ''day'')
       = Inr [project_id tomorrow_expense, project_id today_expense]"
    by (rule get_expenses_backend_day_ex)
  show c: "project_id tomorrow_expense \<notin> set [project_id today_expense]"
    using day_expenses_differ by simp
  have "set [project_id today_expense] \<noteq> set [project_id tomorrow_expense, project_id today_expense]"
    using day_expenses_differ by auto
  with a b wf_store_day_ex valid_now_ex
  show "\<exists>db now xs ys. wf_store db \<and> valid_datetime now
         \<and> get_expenses fromiso db now (Some ''day'') = Inr xs
         \<and> get_expenses_backend fromiso db now (Some ''day'') = Inr ys
         \<and> set xs \<noteq> set ys"
    by blast
  show "q_date_gte_lte (strftime_ymd (midnight now)) (strftime_ymd (midnight now)) d
       = (d ''date'' = Some (Str (strftime_ymd now)))"
    by (auto simp: q_date_gte_lte_def strftime_midnight split: option.splits val.splits)
qed

text \<open>
  C7: on a store of well-formed documents whose expense amounts are non-negative and
  in which every expense of the week window (date string \<open>\<ge>\<close> the week start) has a
  date within the current calendar month, both servers return a summary with
  \<open>total_today \<le> total_week \<le> total_month\<close>.
\<close>

theorem C7_windows_nested:
  assumes "wf_store db" and "valid_datetime now"
    and "sub_days now (weekday now) = Inr ws"
    and "\<forall>e\<in>set (expenses db). 0 \<le> amount_of e"
    and "\<forall>e\<in>set (expenses db). \<forall>s.
           e ''date'' = Some (Str s) \<and> strftime_ymd ws \<le> s \<longrightarrow> in_current_month now s"
  shows "\<exists>r. get_summary db now = Inr r \<and> get_summary_backend db now = Inr r
           \<and> total_today r \<le> total_week r \<and> total_week r \<le> total_month r"
proof -
  let ?es = "take 10000 (expenses db)"
  let ?t = "strftime_ymd now" and ?w = "strftime_ymd ws" and ?m = "strftime_ymd (now\<lparr>day := 1\<rparr>)"
  from get_summary_returns[OF assms(1,2)] assms(3) have
    vws: "valid_datetime ws"
    and main: "get_summary db now = Inr (summary_of db ?t ?w ?m)"
    and backend: "get_summary_backend db now = Inr (summary_of db ?t ?w ?m)"
    by auto
  have sub: "e \<in> set (expenses db)" if "e \<in> set ?es" for e
    using that by (rule in_set_takeD)
  have nonneg: "0 \<le> amount_of e" if "e \<in> set ?es" for e
    using assms(4) sub[OF that] by blast
  have wt: "?w \<le> ?t" by (rule today_in_week[OF assms(2,3) vws])
  have "sum_where (date_matches (\<lambda>s. s = ?t)) ?es \<le> sum_where (date_matches (\<lambda>s. ?w \<le> s)) ?es"
  proof (rule sum_where_mono)
    fix e assume "e \<in> set ?es"
    then show "0 \<le> amount_of e" by (rule nonneg)
  next
    fix e assume "date_matches (\<lambda>s. s = ?t) e"
    then show "date_matches (\<lambda>s. ?w \<le> s) e"
      using wt by (auto simp: date_matches_def split: option.splits val.splits)
  qed
  moreover
  have "sum_where (date_matches (\<lambda>s. ?w \<le> s)) ?es \<le> sum_where (date_matches (\<lambda>s. ?m \<le> s)) ?es"
  proof (rule sum_where_mono)
    fix e assume "e \<in> set ?es"
    then show "0 \<le> amount_of e" by (rule nonneg)
  next
    fix e assume e: "e \<in> set ?es" and w: "date_matches (\<lambda>s. ?w \<le> s) e"
    from w obtain s where s: "e ''date'' = Some (Str s)" "?w \<le> s"
      by (auto simp: date_matches_def split: option.splits val.splits)
    with assms(5) sub[OF e] have "in_current_month now s" by blast
    from month_start_le[OF assms(2) this] s(1) show "date_matches (\<lambda>s. ?m \<le> s) e"
      by (simp add: date_matches_def)
  qed
  ultimately show ?thesis
    using main backend by (simp add: summary_of_fields)
qed

theorem C7_windows_nested_witness:
  "wf_store store_ex \<and> valid_datetime now_ex
   \<and> sub_days now_ex (weekday now_ex) = Inr (now_ex\<lparr>day := 13\<rparr>)
   \<and> get_summary store_ex now_ex = Inr summary_ex
   \<and> get_summary_backend store_ex now_ex = Inr summary_ex
   \<and> total_today summary_ex \<le> total_week summary_ex
   \<and> total_week summary_ex \<le> total_month summary_ex
   \<and> total_today summary_ex = 131 / 2 \<and> total_month summary_ex = 7849 / 100"
  using C7_windows_nested[OF wf_store_ex valid_now_ex week_start_ex amounts_ex_nonneg
      week_in_month_ex]
  by (auto simp: wf_store_ex valid_now_ex week_start_ex get_summary_ex get_summary_backend_ex
      summary_ex_def)

text \<open>
  C3 (amended): \<open>get_summary\<close> of \<open>src/server.py\<close> raises no error on an expense
  whose date field is missing and leaves it out of \<open>total_today\<close>, \<open>total_week\<close> and
  \<open>total_month\<close>: on a store whose expenses have a numeric amount and either no date or
  a date string, the three totals are the sums over those of the first 10000 expenses
  that have a date. A date string, well formed or not, is compared like every other:
  the expense counts in \<open>total_today\<close> when the string equals today's date and in
  \<open>total_week\<close> and \<open>total_month\<close> when it is lexicographically \<open>\<ge>\<close> the boundary.
  On a store in which every expense has a date string, \<open>src/backend/server.py\<close>
  returns the same summary.
\<close>

theorem C3_missing_or_malformed_date:
  assumes "lenient_store db" and "valid_datetime now"
  shows "\<exists>ws r. sub_days now (weekday now) = Inr ws \<and> get_summary db now = Inr r
           \<and> total_today r =
               sum_where (date_matches (\<lambda>s. s = strftime_ymd now))
                 (filter has_date (take 10000 (expenses db)))
           \<and> total_week r =
               sum_where (date_matches (\<lambda>s. strftime_ymd ws \<le> s))
                 (filter has_date (take 10000 (expenses db)))
           \<and> total_month r =
               sum_where (date_matches (\<lambda>s. strftime_ymd (now\<lparr>day := 1\<rparr>) \<le> s))
                 (filter has_date (take 10000 (expenses db)))
           \<and> (wf_store db \<longrightarrow> get_summary_backend db now = Inr r)"
proof -
  from get_summary_returns_lenient[OF assms] obtain ws where
    ws: "sub_days now (weekday now) = Inr ws"
    and main: "get_summary db now =
      Inr (summary_of db (strftime_ymd now) (strftime_ymd ws) (strftime_ymd (now\<lparr>day := 1\<rparr>)))"
    by blast
  have "get_summary_backend db now =
      Inr (summary_of db (strftime_ymd now) (strftime_ymd ws) (strftime_ymd (now\<lparr>day := 1\<rparr>)))"
    if "wf_store db"
    using get_summary_backend_closed[OF that ws] .
  with ws main show ?thesis
    by (simp add: summary_of_fields sum_where_has_date)
qed

theorem C3_missing_or_malformed_date_witness:
  "lenient_store store_malformed_ex \<and> valid_datetime now_ex
   \<and> undated_expense ''date'' = None \<and> malformed_expense ''date'' = Some (Str ''abc'')
   \<and> expenses store_malformed_ex = [undated_expense, malformed_expense]
   \<and> filter has_date (take 10000 (expenses store_malformed_ex)) = [malformed_expense]
   \<and> get_summary store_malformed_ex now_ex = Inr summary_malformed_ex
   \<and> total_today summary_malformed_ex =
       sum_where (date_matches (\<lambda>s. s = strftime_ymd now_ex)) [malformed_expense]
   \<and> total_week summary_malformed_ex =
       sum_where (date_matches (\<lambda>s. strftime_ymd (now_ex\<lparr>day := 13\<rparr>) \<le> s)) [malformed_expense]
   \<and> total_month summary_malformed_ex =
       sum_where (date_matches (\<lambda>s. strftime_ymd (now_ex\<lparr>day := 1\<rparr>) \<le> s)) [malformed_expense]
   \<and> total_today summary_malformed_ex = 0
   \<and> wf_store store_ex \<and> get_summary_backend store_ex now_ex = Inr summary_ex"
proof -
  from C3_missing_or_malformed_date[OF lenient_store_malformed_ex valid_now_ex]
  obtain ws r where a: "sub_days now_ex (weekday now_ex) = Inr ws"
    "get_summary store_malformed_ex now_ex = Inr r"
    "total_today r = sum_where (date_matches (\<lambda>s. s = strftime_ymd now_ex))
       (filter has_date (take 10000 (expenses store_malformed_ex)))"
    "total_week r = sum_where (date_matches (\<lambda>s. strftime_ymd ws \<le> s))
       (filter has_date (take 10000 (expenses store_malformed_ex)))"
    "total_month r = sum_where (date_matches (\<lambda>s. strftime_ymd (now_ex\<lparr>day := 1\<rparr>) \<le> s))
       (filter has_date (take 10000 (expenses store_malformed_ex)))"
    by blast
  from a(1) have ws: "ws = now_ex\<lparr>day := 13\<rparr>" by (simp add: week_start_ex)
  from a(2) have r: "r = summary_malformed_ex" by (simp add: get_summary_malformed_ex)
  from C3_missing_or_malformed_date[OF wf_store_lenient[OF wf_store_ex] valid_now_ex]
  have b: "get_summary_backend store_ex now_ex = Inr summary_ex"
    by (auto simp: wf_store_ex get_summary_ex)
  have c: "expenses store_malformed_ex = [undated_expense, malformed_expense]"
    by (simp add: store_malformed_ex_def)
  have d: "total_today summary_malformed_ex = 0"
    by (simp add: summary_malformed_ex_def)
  from a(3,4,5) b c d show ?thesis
    unfolding ws r has_date_malformed_ex
    by (simp add: lenient_store_malformed_ex valid_now_ex malformed_fields
        get_summary_malformed_ex wf_store_ex)
qed

theorem C3_counterexample:
  "wf_store store_abc_ex \<and> valid_datetime now_ex
   \<and> expenses store_abc_ex = [malformed_expense]
   \<and> malformed_expense ''date'' = Some (Str ''abc'')
   \<and> malformed_expense ''amount'' = Some (Num 10)
   \<and> get_summary store_abc_ex now_ex = Inr summary_malformed_ex
   \<and> get_summary_backend store_abc_ex now_ex = Inr summary_malformed_ex
   \<and> total_week summary_malformed_ex = 10
   \<and> total_month summary_malformed_ex = 10"
  by (simp add: wf_store_abc_ex valid_now_ex expenses_abc_ex malformed_fields
      get_summary_abc_ex get_summary_backend_abc_ex totals_malformed_ex)

end
